theory Spec2Isabelle
  imports Main "HOL-Library.Word" "HOL-Library.Sublist"
begin

section \<open>Values shared by the two benchmark sessions\<close>

text \<open>
  Bytes are 8-bit words, a \<open>[]byte\<close> is a list of them.  A \<open>time.Duration\<close> is a
  number of nanoseconds.  Go's \<open>error\<close> is a value that may be \<open>nil\<close>: an
  \<open>error option\<close>, with \<open>io.EOF\<close> the one error the code compares against.
  The counters and sizes of the sessions stay far below the 64-bit range (a batch is at
  most 8 KiB, a payload is an allocated buffer), so Go's \<open>int\<close> and \<open>int64\<close> are
  modelled by \<open>int\<close>.
\<close>

type_synonym byte = "8 word"

type_synonym float64 = "64 word"

definition Second :: int where
  "Second = 1000000000"

datatype error = EOF | Err string

text \<open>
  Modelled from the spec: \<open>logging.Fatalf\<close>, of the repository's logging package, is
  the fatal error that aborts the run before or during setup.  With \<open>panic(err)\<close> it is
  one of the two ways in which \<open>init\<close> ends without returning.
\<close>

datatype abort = Fatalf string | Panic error

text \<open>The websocket opcodes of RFC 6455, as both websocket packages declare them.\<close>

definition TextMessage :: int where
  "TextMessage = 1"

definition BinaryMessage :: int where
  "BinaryMessage = 2"

text \<open>
  \<open>limitFn\<close> is either the empty function of \<open>New\<close> and \<open>clean\<close>, or the closure of
  \<open>init\<close> that calls \<open>limiter.WaitN(ctx, n)\<close> on a limiter of the given burst
  (\<open>Wait\<close> is \<open>WaitN\<close> with \<open>n = 1\<close>).  A context is the background context or one
  that is cancelled together with a done channel.
\<close>

datatype Context = Background | WithDone

datatype limit_fn = Nop | LimiterWaitN Context int int

text \<open>The aggregated readings of \<open>perf.PSCounter\<close> and \<open>perf.Calculator\<close> a report reads.\<close>

record PSCounter =
  ps_CPUMin :: float64
  ps_CPUAvg :: float64
  ps_CPUMax :: float64
  ps_MEMRSSMin :: int
  ps_MEMRSSAvg :: int
  ps_MEMRSSMax :: int

record Calculator =
  calc_Success :: int
  calc_Failed :: int
  calc_Used :: int
  calc_Min :: int
  calc_Avg :: int
  calc_Max :: int
  calc_TPS :: float64
  calc_TPN :: "int \<Rightarrow> int"

text \<open>
  What the sessions take from outside \<open>src/\<close>: the number of CPUs, the random source
  (\<open>rand_Read k j\<close> is byte \<open>j\<close> of the \<open>k\<close>-th buffer filled), the frame codec
  \<open>protocol.EncodeClientMessage\<close> and \<open>protocol.BatchBuffers\<close>, the pid lookup
  \<open>config.GetFrameworkPid\<close>, and the constructors of the \<open>perf\<close> package.
\<close>

record environ =
  NumCPU :: int
  rand_Read :: "nat \<Rightarrow> nat \<Rightarrow> byte"
  EncodeClientMessage :: "int \<Rightarrow> byte list \<Rightarrow> byte list"
  BatchBuffers :: "byte list \<Rightarrow> int \<Rightarrow> int \<Rightarrow> byte list \<times> int \<times> int"
  GetFrameworkPid :: "string \<Rightarrow> string \<Rightarrow> error + int"
  NewPSCounter :: "int \<Rightarrow> error + PSCounter"
  NewCalculator :: "string \<Rightarrow> Calculator"

section \<open>The closed-loop session: benchecho.go\<close>

text \<open>
  A message reader of the transport is the script of what its \<open>Read\<close> calls deliver:
  chunks of bytes, each with the error returned once the chunk is handed over; a reader
  read past its script reports \<open>io.EOF\<close>.  \<open>Read\<close> copies at most as many bytes as
  the slice it is given holds and keeps the rest of the chunk for the next call.
\<close>

type_synonym reader = "(byte list \<times> error option) list"

fun reader_Read :: "reader \<Rightarrow> nat \<Rightarrow> byte list \<times> error option \<times> reader" where
  "reader_Read [] n = ([], Some EOF, [])"
| "reader_Read ((chunk, e) # rest) n =
     (if length chunk \<le> n then (chunk, e, rest)
      else (take n chunk, None, (drop n chunk, e) # rest))"

text \<open>
  A gorilla connection, as one call sees it: the error of writing a frame to the
  underlying connection, and what \<open>NextReader\<close> returns after that frame was written.
\<close>

record wsConn =
  conn_Write :: "byte list \<Rightarrow> error option"
  conn_NextReader :: "byte list \<Rightarrow> error + (int \<times> reader)"

record BenchEcho =
  bm_Framework :: string
  bm_Ip :: string
  bm_WarmupTimes :: int
  bm_Total :: int
  bm_Concurrency :: int
  bm_Payload :: int
  bm_Limit :: int
  bm_Percents :: "int list"
  bm_PsInterval :: int
  bm_Calculator :: "Calculator option"
  bm_ServerPid :: int
  bm_PsCounter :: "PSCounter option"
  bm_ConnsMap :: "wsConn list"
  bm_pbuffers :: "byte list list"
  bm_wbuffers :: "byte list list"
  bm_bufferIdx :: "32 word"
  bm_chConns :: "wsConn list"
  bm_limitFn :: limit_fn

text \<open>
  \<open>New\<close>: every field but the four given ones has Go's zero value.  \<open>ConnsMap\<close> is
  a map used as a set; the list is its keys in the order a \<open>range\<close> visits them.  A
  nil channel and an empty one both block a receive, so \<open>chConns\<close> is the queue of its
  elements.
\<close>

definition bm_New :: "string \<Rightarrow> int \<Rightarrow> string \<Rightarrow> wsConn list \<Rightarrow> BenchEcho" where
  "bm_New framework benchmarkTimes ip connsMap =
     \<lparr> bm_Framework = framework, bm_Ip = ip, bm_WarmupTimes = 0, bm_Total = benchmarkTimes,
       bm_Concurrency = 0, bm_Payload = 0, bm_Limit = 0, bm_Percents = [], bm_PsInterval = 0,
       bm_Calculator = None, bm_ServerPid = 0, bm_PsCounter = None, bm_ConnsMap = connsMap,
       bm_pbuffers = [], bm_wbuffers = [], bm_bufferIdx = 0, bm_chConns = [],
       bm_limitFn = Nop \<rparr>"

text \<open>
  \<open>init\<close>, in the order of its statements: the defaults of the configuration (lines
  130 to 163), the 1024 payload buffers and their encoded frames (lines 165 to 172), the
  queue of connections, then the pid lookup and the two \<open>perf\<close> objects.  The
  read-buffer pool only allocates buffers of \<open>Payload\<close> bytes on demand, so it needs no
  field.
\<close>

definition bm_init_defaults :: "environ \<Rightarrow> BenchEcho \<Rightarrow> BenchEcho" where
  "bm_init_defaults env bm0 =
     (let n = int (length (bm_ConnsMap bm0));
          bm = (if bm_WarmupTimes bm0 \<le> 0
                then bm0\<lparr>bm_WarmupTimes := (if n * 5 > 2000000 then 2000000 else n * 5)\<rparr>
                else bm0);
          bm = (if bm_Concurrency bm \<le> 0 then bm\<lparr>bm_Concurrency := NumCPU env * 1000\<rparr> else bm);
          bm = (if bm_Concurrency bm > n then bm\<lparr>bm_Concurrency := n\<rparr> else bm);
          bm = (if bm_Payload bm \<le> 0 then bm\<lparr>bm_Payload := 1024\<rparr> else bm);
          bm = (if bm_PsInterval bm \<le> 0 then bm\<lparr>bm_PsInterval := Second\<rparr> else bm);
          bm = (if length (bm_Percents bm) = 0 then bm\<lparr>bm_Percents := [50, 75, 90, 95, 99]\<rparr> else bm)
      in if bm_Limit bm > 0 then bm\<lparr>bm_limitFn := LimiterWaitN Background (bm_Limit bm) 1\<rparr>
         else bm)"

definition bm_init_pbuffers :: "environ \<Rightarrow> int \<Rightarrow> byte list list" where
  "bm_init_pbuffers env payload = map (\<lambda>i. map (rand_Read env i) [0..<nat payload]) [0..<1024]"

definition bm_init_wbuffers :: "environ \<Rightarrow> byte list list \<Rightarrow> byte list list" where
  "bm_init_wbuffers env pbufs = map (EncodeClientMessage env BinaryMessage) pbufs"

definition bm_init :: "environ \<Rightarrow> BenchEcho \<Rightarrow> abort + BenchEcho" where
  "bm_init env bm0 =
     (let bm = bm_init_defaults env bm0;
          pbufs = bm_init_pbuffers env (bm_Payload bm);
          bm = bm\<lparr>bm_pbuffers := pbufs, bm_wbuffers := bm_init_wbuffers env pbufs,
                  bm_chConns := bm_ConnsMap bm\<rparr>
      in case GetFrameworkPid env (bm_Framework bm) (bm_Ip bm) of
           Inl err \<Rightarrow> Inl (Fatalf ''BenchEcho GetFrameworkPid(%v) failed: %v'')
         | Inr serverPid \<Rightarrow>
             (case NewPSCounter env serverPid of
                Inl err \<Rightarrow> Inl (Panic err)
              | Inr psCounter \<Rightarrow>
                  Inr (bm\<lparr>bm_ServerPid := serverPid, bm_PsCounter := Some psCounter,
                          bm_Calculator := Some (NewCalculator env (bm_Framework bm @ ''-TPS''))\<rparr>)))"

text \<open>
  \<open>rand.Intn(n)\<close> panics for \<open>n \<le> 0\<close> and otherwise returns a number below \<open>n\<close>;
  \<open>rnd\<close> is the draw of the random source.  \<open>getBuffers\<close> converts the number and
  the length to \<open>uint32\<close> and indexes both buffer tables with the remainder; an index
  out of range panics.
\<close>

definition rand_Intn :: "nat \<Rightarrow> nat \<Rightarrow> nat option" where
  "rand_Intn rnd n = (if n = 0 then None else Some (rnd mod n))"

definition bm_getBuffers :: "BenchEcho \<Rightarrow> nat \<Rightarrow> (byte list \<times> byte list) option" where
  "bm_getBuffers bm rnd =
     (case rand_Intn rnd (length (bm_wbuffers bm)) of
        None \<Rightarrow> None
      | Some r \<Rightarrow>
          (let idx = unat ((word_of_nat r :: 32 word) mod word_of_nat (length (bm_wbuffers bm)))
           in if idx < length (bm_pbuffers bm) \<and> idx < length (bm_wbuffers bm)
              then Some (bm_pbuffers bm ! idx, bm_wbuffers bm ! idx)
              else None))"

text \<open>
  The read loop of \<open>doOnce\<close> (lines 227 to 239).  \<open>readBuffer\<close> starts as the pooled
  buffer itself, so the first \<open>psize\<close> bytes read land in the pooled buffer too, and
  \<open>append(readBuffer, (*rbuffer)...)\<close> appends a copy of the first \<open>psize\<close> bytes of
  \<open>readBuffer\<close>.  \<open>Read\<close> overwrites \<open>readBuffer\<close> from position \<open>nread\<close>.  The loop
  ends at \<open>io.EOF\<close> with the buffer and the count, or at another error with that error;
  a loop that never ends has the value \<open>None\<close>.
\<close>

partial_function (option) readLoop ::
    "nat \<Rightarrow> byte list \<Rightarrow> nat \<Rightarrow> reader \<Rightarrow> (error + byte list \<times> nat) option" where
  "readLoop psize readBuffer nread rd =
     (let readBuffer = (if nread = length readBuffer
                        then readBuffer @ take psize readBuffer else readBuffer)
      in case reader_Read rd (length readBuffer - nread) of
           (data, err, rd') \<Rightarrow>
             (let readBuffer = take nread readBuffer @ data @ drop (nread + length data) readBuffer;
                  nread = nread + length data
              in if err = Some EOF then Some (Inr (readBuffer, nread))
                 else (case err of Some e \<Rightarrow> Some (Inl e)
                       | None \<Rightarrow> readLoop psize readBuffer nread rd')))"

text \<open>
  One call of the closed-loop session.  It takes the connection at the head of the
  queue and blocks when there is none; the deferred send puts the connection back at
  the end of the queue on every return.  \<open>limitFn\<close> only delays the call.  \<open>stale\<close> is
  what the pooled read buffer of \<open>Payload\<close> bytes holds when the pool hands it out.
\<close>

datatype 'a outcome = Returns 'a | Panics | Blocks

definition bm_doOnce ::
    "BenchEcho \<Rightarrow> nat \<Rightarrow> (nat \<Rightarrow> byte) \<Rightarrow> (BenchEcho \<times> error option) outcome" where
  "bm_doOnce bm rnd stale =
     (case bm_chConns bm of
        [] \<Rightarrow> Blocks
      | conn # rest \<Rightarrow>
          (case bm_getBuffers bm rnd of
             None \<Rightarrow> Panics
           | Some (pbuffer, wbuffer) \<Rightarrow>
               (let bm' = bm\<lparr>bm_chConns := rest @ [conn]\<rparr> in
                case conn_Write conn wbuffer of
                  Some err \<Rightarrow> Returns (bm', Some err)
                | None \<Rightarrow>
                    (let rbuffer = map stale [0..<nat (bm_Payload bm)] in
                     case conn_NextReader conn wbuffer of
                       Inl err \<Rightarrow> Returns (bm', Some err)
                     | Inr (mt, rd) \<Rightarrow>
                         (case readLoop (length rbuffer) rbuffer 0 rd of
                            None \<Rightarrow> Blocks
                          | Some (Inl err) \<Rightarrow> Returns (bm', Some err)
                          | Some (Inr (readBuffer, nread)) \<Rightarrow>
                              if mt \<noteq> BinaryMessage
                              then Returns (bm', Some (Err ''invalid message type''))
                              else if pbuffer \<noteq> take nread readBuffer
                              then Returns (bm', Some (Err ''respons data is not equal to origin''))
                              else Returns (bm', None))))))"

text \<open>
  The calls of a run, one after the other, each with its draw of the random source and
  the contents of its read buffer; a call that panics or blocks ends the sequence.  The
  calls of concurrent workers share only the queue of connections and the buffer pool.
\<close>

fun bm_calls :: "(nat \<times> (nat \<Rightarrow> byte)) list \<Rightarrow> BenchEcho \<Rightarrow> BenchEcho outcome" where
  "bm_calls [] bm = Returns bm"
| "bm_calls ((rnd, stale) # cs) bm =
     (case bm_doOnce bm rnd stale of
        Returns (bm', res) \<Rightarrow> bm_calls cs bm'
      | Panics \<Rightarrow> Panics
      | Blocks \<Rightarrow> Blocks)"

text \<open>\<open>clean\<close>, which \<open>Run\<close> defers to its end.\<close>

definition bm_clean :: "BenchEcho \<Rightarrow> BenchEcho" where
  "bm_clean bm = bm\<lparr>bm_chConns := [], bm_wbuffers := [], bm_bufferIdx := 0, bm_limitFn := Nop\<rparr>"

text \<open>
  What a reader's script amounts to: the bytes it hands over up to its first error, and
  that error (\<open>io.EOF\<close> for a message read to its end).
\<close>

fun received :: "reader \<Rightarrow> byte list" where
  "received [] = []"
| "received ((chunk, e) # rest) = chunk @ (if e = None then received rest else [])"

fun readStatus :: "reader \<Rightarrow> error" where
  "readStatus [] = EOF"
| "readStatus ((chunk, e) # rest) = (case e of None \<Rightarrow> readStatus rest | Some x \<Rightarrow> x)"

fun script_size :: "reader \<Rightarrow> nat" where
  "script_size [] = 0"
| "script_size ((chunk, e) # rest) = Suc (length chunk) + script_size rest"

text \<open>Two byte strings of one length that differ at exactly one position.\<close>

definition differ_in_one_byte :: "byte list \<Rightarrow> byte list \<Rightarrow> bool" where
  "differ_in_one_byte xs ys =
     (length xs = length ys \<and> length (filter (\<lambda>(x, y). x \<noteq> y) (zip xs ys)) = 1)"

text \<open>What one call returns, stated on the script of the reader instead of the buffers of the
  read loop.\<close>

definition echo_verdict :: "wsConn \<Rightarrow> byte list \<Rightarrow> byte list \<Rightarrow> error option" where
  "echo_verdict conn pbuffer wbuffer =
     (case conn_Write conn wbuffer of
        Some err \<Rightarrow> Some err
      | None \<Rightarrow>
          (case conn_NextReader conn wbuffer of
             Inl err \<Rightarrow> Some err
           | Inr (mt, rd) \<Rightarrow>
               if readStatus rd \<noteq> EOF then Some (readStatus rd)
               else if mt \<noteq> BinaryMessage then Some (Err ''invalid message type'')
               else if pbuffer \<noteq> received rd then Some (Err ''respons data is not equal to origin'')
               else None))"

text \<open>
  \<open>Report\<close>: the fields of \<open>report.BenchEchoReport\<close> that the composite literal sets.
  Reading the calculator or the sampler of a session that was not initialised is a nil
  dereference.
\<close>

record BenchEchoReport =
  rp_Framework :: string
  rp_Connections :: int
  rp_Concurrency :: int
  rp_Payload :: int
  rp_Total :: int
  rp_Success :: int
  rp_Failed :: int
  rp_Used :: int
  rp_CPUMin :: float64
  rp_CPUAvg :: float64
  rp_CPUMax :: float64
  rp_MEMRSSMin :: int
  rp_MEMRSSAvg :: int
  rp_MEMRSSMax :: int
  rp_TPS :: float64
  rp_Min :: int
  rp_Avg :: int
  rp_Max :: int
  rp_TP50 :: int
  rp_TP75 :: int
  rp_TP90 :: int
  rp_TP95 :: int
  rp_TP99 :: int

definition bm_Report :: "BenchEcho \<Rightarrow> BenchEchoReport option" where
  "bm_Report bm =
     (case (bm_Calculator bm, bm_PsCounter bm) of
        (Some calc, Some ps) \<Rightarrow>
          Some \<lparr> rp_Framework = bm_Framework bm,
                 rp_Connections = int (length (bm_ConnsMap bm)),
                 rp_Concurrency = bm_Concurrency bm,
                 rp_Payload = bm_Payload bm,
                 rp_Total = bm_Total bm,
                 rp_Success = calc_Success calc,
                 rp_Failed = calc_Failed calc,
                 rp_Used = calc_Used calc,
                 rp_CPUMin = ps_CPUMin ps,
                 rp_CPUAvg = ps_CPUAvg ps,
                 rp_CPUMax = ps_CPUMax ps,
                 rp_MEMRSSMin = ps_MEMRSSMin ps,
                 rp_MEMRSSAvg = ps_MEMRSSAvg ps,
                 rp_MEMRSSMax = ps_MEMRSSMax ps,
                 rp_TPS = calc_TPS calc,
                 rp_Min = calc_Min calc,
                 rp_Avg = calc_Avg calc,
                 rp_Max = calc_Max calc,
                 rp_TP50 = calc_TPN calc 50,
                 rp_TP75 = calc_TPN calc 75,
                 rp_TP90 = calc_TPN calc 90,
                 rp_TP95 = calc_TPN calc 95,
                 rp_TP99 = calc_TPN calc 99 \<rparr>
      | _ \<Rightarrow> None)"

text \<open>The latency percentile a report holds for the rank \<open>n\<close>, if it has a field for it.\<close>

definition report_percentile :: "BenchEchoReport \<Rightarrow> int \<Rightarrow> int option" where
  "report_percentile rp n =
     (if n = 50 then Some (rp_TP50 rp)
      else if n = 75 then Some (rp_TP75 rp)
      else if n = 90 then Some (rp_TP90 rp)
      else if n = 95 then Some (rp_TP95 rp)
      else if n = 99 then Some (rp_TP99 rp)
      else None)"

section \<open>The open-loop session: the rate benchmark\<close>

text \<open>
  The session's \<open>Conn\<close>: the two counters, and for the embedded \<open>net.Conn\<close> the
  buffers handed to its \<open>Write\<close>, in order.  Connections live in a store, addressed by
  the pointer that a team holds and that the websocket connection keeps as its session.
\<close>

record Conn =
  sendCnt :: int
  recvCnt :: int
  net_writes :: "byte list list"

record BenchRate =
  br_Framework :: string
  br_Ip :: string
  br_Duration :: int
  br_Concurrency :: int
  br_SendRate :: int
  br_Payload :: int
  br_SendLimit :: int
  br_PsInterval :: int
  br_ServerPid :: int
  br_PsCounter :: "PSCounter option"
  br_ConnsMap :: "nat list"
  br_wbuffer :: "byte list"
  br_chConns :: "nat list"
  br_limitFn :: limit_fn
  br_batch :: int
  br_batchBuffer :: "byte list"
  br_tickRate :: int
  br_sendTimes :: int
  br_sendBytes :: int
  br_recvTimes :: int
  br_recvBytes :: int

definition br_New :: "string \<Rightarrow> string \<Rightarrow> nat list \<Rightarrow> BenchRate" where
  "br_New framework ip connsMap =
     \<lparr> br_Framework = framework, br_Ip = ip, br_Duration = 0, br_Concurrency = 0,
       br_SendRate = 0, br_Payload = 0, br_SendLimit = 0, br_PsInterval = 0, br_ServerPid = 0,
       br_PsCounter = None, br_ConnsMap = connsMap, br_wbuffer = [], br_chConns = [],
       br_limitFn = Nop, br_batch = 0, br_batchBuffer = [], br_tickRate = 0,
       br_sendTimes = 0, br_sendBytes = 0, br_recvTimes = 0, br_recvBytes = 0 \<rparr>"

text \<open>
  \<open>init\<close>: the defaults (lines 156 to 170), the send buffer and the batch (lines 172
  to 175), the check of the batch (lines 177 to 179), the sampling interval, the limiter
  and the queue (lines 181 to 200), then the pid lookup and the sampler.
  \<open>logging.Fatalf\<close> ends the process, so nothing after it is run.  Registering
  \<open>onMessage\<close> with every connection is what makes the transport deliver the messages
  of a run to it.
\<close>

definition br_init_defaults :: "BenchRate \<Rightarrow> BenchRate" where
  "br_init_defaults br0 =
     (let br = (if br_Duration br0 \<le> 0 then br0\<lparr>br_Duration := Second * 10\<rparr> else br0);
          br = (if br_Concurrency br \<le> 0 then br\<lparr>br_Concurrency := 50000\<rparr> else br);
          br = (if br_Concurrency br > int (length (br_ConnsMap br))
                then br\<lparr>br_Concurrency := int (length (br_ConnsMap br))\<rparr> else br);
          br = (if br_SendRate br \<le> 0 then br\<lparr>br_SendRate := 1\<rparr> else br)
      in if br_Payload br \<le> 0 then br\<lparr>br_Payload := 1024\<rparr> else br)"

definition br_init_batch :: "environ \<Rightarrow> BenchRate \<Rightarrow> BenchRate" where
  "br_init_batch env br =
     (let wbuffer = map (rand_Read env 0) [0..<nat (br_Payload br)];
          message = EncodeClientMessage env BinaryMessage wbuffer
      in case BatchBuffers env message (br_SendRate br) (1024 * 8) of
           (batchBuffer, batch, tickRate) \<Rightarrow>
             br\<lparr>br_wbuffer := wbuffer, br_batchBuffer := batchBuffer, br_batch := batch,
                br_tickRate := tickRate\<rparr>)"

definition br_init_limit :: "BenchRate \<Rightarrow> BenchRate" where
  "br_init_limit br0 =
     (let br = (if br_PsInterval br0 \<le> 0 then br0\<lparr>br_PsInterval := Second\<rparr> else br0);
          br = (if br_SendLimit br > 0
                then br\<lparr>br_limitFn := LimiterWaitN Background (br_SendLimit br)
                                         (int (length (br_batchBuffer br)) div br_Payload br)\<rparr>
                else br)
      in br\<lparr>br_chConns := concat (replicate (nat (br_SendRate br)) (br_ConnsMap br))\<rparr>)"

definition br_init :: "environ \<Rightarrow> BenchRate \<Rightarrow> abort + BenchRate" where
  "br_init env br0 =
     (let br = br_init_batch env (br_init_defaults br0)
      in if br_tickRate br \<le> 0 \<or> length (br_batchBuffer br) = 0
         then Inl (Fatalf ''BenchRate get wrong tickRate: %v, or batchBuffer: %v'')
         else (let br = br_init_limit br
               in case GetFrameworkPid env (br_Framework br) (br_Ip br) of
                    Inl err \<Rightarrow> Inl (Fatalf ''BenchRate GetFrameworkPid(%v) failed: %v'')
                  | Inr serverPid \<Rightarrow>
                      (case NewPSCounter env serverPid of
                         Inl err \<Rightarrow> Inl (Panic err)
                       | Inr psCounter \<Rightarrow>
                           Inr (br\<lparr>br_ServerPid := serverPid,
                                   br_PsCounter := Some psCounter\<rparr>))))"

text \<open>\<open>clean\<close> and \<open>getWriteBuffer\<close>.\<close>

definition br_clean :: "BenchRate \<Rightarrow> BenchRate" where
  "br_clean br = br\<lparr>br_chConns := [], br_limitFn := Nop\<rparr>"

definition br_getWriteBuffer :: "BenchRate \<Rightarrow> byte list" where
  "br_getWriteBuffer br = br_wbuffer br"

text \<open>
  \<open>doOnce\<close>: the body of its loop for the connection at address \<open>p\<close>, and the loop
  over a team.  \<open>werr p\<close> is the error the connection's \<open>Write\<close> returns on this tick.
  \<open>limitFn\<close> only delays the write.  The function returns no error.
\<close>

definition br_doOnce_conn ::
    "(nat \<Rightarrow> error option) \<Rightarrow> nat \<Rightarrow> BenchRate \<times> (nat \<Rightarrow> Conn) \<Rightarrow> BenchRate \<times> (nat \<Rightarrow> Conn)" where
  "br_doOnce_conn werr p s =
     (case s of (br, h) \<Rightarrow>
        (let conn = h p in
         if sendCnt conn - recvCnt conn + br_batch br < br_batch br * 5
         then (let conn = conn\<lparr>net_writes := net_writes conn @ [br_batchBuffer br]\<rparr> in
               case werr p of
                 None \<Rightarrow>
                   (br\<lparr>br_sendTimes := br_sendTimes br + br_batch br,
                       br_sendBytes := br_sendBytes br + br_batch br * br_Payload br\<rparr>,
                    h(p := conn\<lparr>sendCnt := sendCnt conn + br_batch br\<rparr>))
               | Some err \<Rightarrow> (br, h(p := conn)))
         else (br, h)))"

fun br_doOnce ::
    "(nat \<Rightarrow> error option) \<Rightarrow> nat list \<Rightarrow> BenchRate \<times> (nat \<Rightarrow> Conn) \<Rightarrow> BenchRate \<times> (nat \<Rightarrow> Conn)" where
  "br_doOnce werr [] s = s"
| "br_doOnce werr (p # conns) s = br_doOnce werr conns (br_doOnce_conn werr p s)"

text \<open>\<open>onMessage\<close>, for the websocket connection whose session is the \<open>Conn\<close> at \<open>c\<close>.\<close>

definition br_onMessage ::
    "nat \<Rightarrow> int \<Rightarrow> byte list \<Rightarrow> BenchRate \<times> (nat \<Rightarrow> Conn) \<Rightarrow> BenchRate \<times> (nat \<Rightarrow> Conn)" where
  "br_onMessage c mt b s =
     (case s of (br, h) \<Rightarrow>
        if mt = BinaryMessage \<and> b = br_getWriteBuffer br
        then (br\<lparr>br_recvTimes := br_recvTimes br + 1,
                 br_recvBytes := br_recvBytes br + int (length b)\<rparr>,
              h(c := (h c)\<lparr>recvCnt := recvCnt (h c) + 1\<rparr>))
        else (br, h))"

text \<open>
  A run of the session after \<open>init\<close> is a sequence of events: a tick of a worker over
  its team, with the outcome of each write, or a message delivered by the transport.
  The counters are updated atomically and each connection belongs to one team, so every
  state the concurrent run passes through is the state after such a sequence (a message
  that arrives between the check of a connection and its write only lowers the
  difference the check has read).
\<close>

datatype event = is_Tick: Tick "nat list" "nat \<Rightarrow> error option" | Message nat int "byte list"

fun br_event :: "event \<Rightarrow> BenchRate \<times> (nat \<Rightarrow> Conn) \<Rightarrow> BenchRate \<times> (nat \<Rightarrow> Conn)" where
  "br_event (Tick conns werr) s = br_doOnce werr conns s"
| "br_event (Message c mt b) s = br_onMessage c mt b s"

fun br_run :: "event list \<Rightarrow> BenchRate \<times> (nat \<Rightarrow> Conn) \<Rightarrow> BenchRate \<times> (nat \<Rightarrow> Conn)" where
  "br_run [] s = s"
| "br_run (e # es) s = br_run es (br_event e s)"

text \<open>The connections as \<open>Run\<close> creates them: both counters zero, nothing written.\<close>

definition new_Conn :: Conn where
  "new_Conn = \<lparr> sendCnt = 0, recvCnt = 0, net_writes = [] \<rparr>"

text \<open>The sends of a connection that no counted message has answered yet.\<close>

definition outstanding :: "Conn \<Rightarrow> int" where
  "outstanding conn = sendCnt conn - recvCnt conn"

section \<open>The rate limiter's wait\<close>

text \<open>
  \<open>limiter.WaitN(ctx, n)\<close> fails at once when \<open>n\<close> exceeds the burst, returns the
  context's error as soon as the context is done, and otherwise returns when the delay
  of its reservation has passed.  \<open>Context_Done ctx done\<close> tells whether the context is
  done when the run's done channel is closed or not: the background context never is.
  \<open>limitFn_wait\<close> is one unit of time of a worker inside \<open>limitFn\<close> with \<open>d\<close> units
  of delay left.
\<close>

fun Context_Done :: "Context \<Rightarrow> bool \<Rightarrow> bool" where
  "Context_Done Background done = False"
| "Context_Done WithDone done = done"

datatype waiting = Waiting nat | Released "error option"

fun limitFn_wait :: "limit_fn \<Rightarrow> bool \<Rightarrow> nat \<Rightarrow> waiting" where
  "limitFn_wait Nop done d = Released None"
| "limitFn_wait (LimiterWaitN ctx burst n) done d =
     (if n > burst then Released (Some (Err ''rate: Wait exceeds limiter's burst''))
      else if Context_Done ctx done then Released (Some (Err ''context canceled''))
      else if d = 0 then Released None
      else Waiting (d - 1))"

section \<open>The order of events in Run\<close>

text \<open>
  \<open>Run\<close> of either session is two threads.  The main thread starts the goroutine of
  the sampler, runs the measurement (\<open>Calculator.Benchmark\<close>, or the workers' tick loops
  up to \<open>wg.Wait\<close>), receives from \<open>chCounterStart\<close> and stops the sampler; the
  closed-loop session runs its warmup first.  The goroutine starts the sampler, sleeps
  for \<open>PsInterval\<close> and closes \<open>chCounterStart\<close>.
\<close>

datatype action =
  Warmup | Go | MeasureBegin | MeasureEnd | AwaitCounterStart | PsStop
  | PsStart | Sleep | CloseCounterStart

definition bm_Run_main :: "action list" where
  "bm_Run_main = [Warmup, Go, MeasureBegin, MeasureEnd, AwaitCounterStart, PsStop]"

definition br_Run_main :: "action list" where
  "br_Run_main = [Go, MeasureBegin, MeasureEnd, AwaitCounterStart, PsStop]"

definition Run_goroutine :: "action list" where
  "Run_goroutine = [PsStart, Sleep, CloseCounterStart]"

text \<open>
  The state of the two threads: what each has left to do (the goroutine has nothing
  before \<open>go\<close>), the clock, the time at which a sleeping goroutine wakes, whether the
  channel is closed, and the actions done so far with their times.  The scheduler picks
  the thread that moves, or lets time pass; a thread that cannot move stays where it
  is.
\<close>

record run_state =
  rs_main :: "action list"
  rs_goroutine :: "action list option"
  rs_now :: nat
  rs_wake :: "nat option"
  rs_closed :: bool
  rs_trace :: "(action \<times> nat) list"

datatype choice = RunMain | RunGoroutine | Advance nat

definition run_init :: "action list \<Rightarrow> run_state" where
  "run_init prog = \<lparr> rs_main = prog, rs_goroutine = None, rs_now = 0, rs_wake = None,
                     rs_closed = False, rs_trace = [] \<rparr>"

fun run_step :: "nat \<Rightarrow> choice \<Rightarrow> run_state \<Rightarrow> run_state" where
  "run_step interval (Advance d) s = s\<lparr>rs_now := rs_now s + d\<rparr>"
| "run_step interval RunMain s =
     (case rs_main s of
        [] \<Rightarrow> s
      | a # rest \<Rightarrow>
          if a = AwaitCounterStart \<and> \<not> rs_closed s then s
          else if a = Go
          then s\<lparr>rs_main := rest, rs_goroutine := Some Run_goroutine,
                 rs_trace := rs_trace s @ [(a, rs_now s)]\<rparr>
          else s\<lparr>rs_main := rest, rs_trace := rs_trace s @ [(a, rs_now s)]\<rparr>)"
| "run_step interval RunGoroutine s =
     (case rs_goroutine s of
        None \<Rightarrow> s
      | Some [] \<Rightarrow> s
      | Some (a # rest) \<Rightarrow>
          if a = Sleep
          then (case rs_wake s of
                  None \<Rightarrow> s\<lparr>rs_wake := Some (rs_now s + interval)\<rparr>
                | Some w \<Rightarrow>
                    if w \<le> rs_now s
                    then s\<lparr>rs_goroutine := Some rest, rs_trace := rs_trace s @ [(a, rs_now s)]\<rparr>
                    else s)
          else if a = CloseCounterStart
          then s\<lparr>rs_goroutine := Some rest, rs_closed := True,
                 rs_trace := rs_trace s @ [(a, rs_now s)]\<rparr>
          else s\<lparr>rs_goroutine := Some rest, rs_trace := rs_trace s @ [(a, rs_now s)]\<rparr>)"

fun run_exec :: "nat \<Rightarrow> choice list \<Rightarrow> run_state \<Rightarrow> run_state" where
  "run_exec interval [] s = s"
| "run_exec interval (c # cs) s = run_exec interval cs (run_step interval c s)"

text \<open>The time at which an action was done, if it was.\<close>

definition time_of :: "action \<Rightarrow> run_state \<Rightarrow> nat option" where
  "time_of a s = map_of (rs_trace s) a"

text \<open>
  What holds in every state the two threads reach: times on record are not in the
  future; each thread has a rest of its program left; once the goroutine is past
  \<open>PsCounter.Start\<close> the start is on record; a set wake time, a goroutine past its
  sleep and a closed channel each mean that an interval has passed, or will have
  passed at the wake time, since the start; a main thread past its receive has seen the
  channel closed; and a stop on record comes an interval after the start and not before
  the end of the measurement.
\<close>

definition run_inv :: "nat \<Rightarrow> run_state \<Rightarrow> bool" where
  "run_inv d s \<longleftrightarrow>
     (\<forall>a t. time_of a s = Some t \<longrightarrow> t \<le> rs_now s) \<and>
     rs_main s \<in> set (suffixes bm_Run_main) \<and>
     (\<forall>gs. rs_goroutine s = Some gs \<longrightarrow> gs \<in> set (suffixes Run_goroutine)) \<and>
     (\<forall>gs. rs_goroutine s = Some gs \<and> PsStart \<notin> set gs \<longrightarrow> time_of PsStart s \<noteq> None) \<and>
     (\<forall>w. rs_wake s = Some w \<longrightarrow> (\<exists>ts. time_of PsStart s = Some ts \<and> ts + d \<le> w)) \<and>
     (\<forall>gs. rs_goroutine s = Some gs \<and> Sleep \<notin> set gs \<longrightarrow>
           (\<exists>ts. time_of PsStart s = Some ts \<and> ts + d \<le> rs_now s)) \<and>
     (rs_closed s \<longrightarrow> (\<exists>ts. time_of PsStart s = Some ts \<and> ts + d \<le> rs_now s)) \<and>
     (AwaitCounterStart \<notin> set (rs_main s) \<longrightarrow> rs_closed s) \<and>
     (MeasureEnd \<notin> set (rs_main s) \<longrightarrow> time_of MeasureEnd s \<noteq> None) \<and>
     (\<forall>t. time_of PsStop s = Some t \<longrightarrow>
          (\<exists>ts te. time_of PsStart s = Some ts \<and> ts + d \<le> t \<and>
                   time_of MeasureEnd s = Some te \<and> te \<le> t))"

section \<open>Example sessions\<close>

text \<open>
  Concrete values on which the definitions are run.  A peer that answers every frame
  with a binary message carrying the frame's payload, and one that answers with the
  bytes 5, 6, 7, 9 in two chunks.  An environment whose codec puts two header bytes
  (the final-fragment bit with the opcode, then the length) before the payload, whose
  \<open>BatchBuffers\<close> returns a batch of one frame at a tick rate equal to the send rate,
  and whose lookups succeed.  Closed-loop sessions of three connections, before and
  after \<open>init\<close>, with a payload of 4 bytes, with the percentile list \<open>[10]\<close>, and
  with a limit of 5; open-loop sessions of three connections with a payload of 4 bytes
  and a send rate of 10, without and with a send limit of 5.
\<close>


definition echo_peer :: wsConn where
  "echo_peer = \<lparr> conn_Write = (\<lambda>w. None),
                 conn_NextReader = (\<lambda>w. Inr (BinaryMessage, [(drop 2 w, None)])) \<rparr>"

definition flip_peer :: wsConn where
  "flip_peer = \<lparr> conn_Write = (\<lambda>w. None),
                 conn_NextReader = (\<lambda>w. Inr (BinaryMessage, [([5, 6], None), ([7, 9], None)])) \<rparr>"

definition ps0 :: PSCounter where
  "ps0 = \<lparr> ps_CPUMin = 0, ps_CPUAvg = 0, ps_CPUMax = 0,
           ps_MEMRSSMin = 0, ps_MEMRSSAvg = 0, ps_MEMRSSMax = 0 \<rparr>"

definition calc0 :: Calculator where
  "calc0 = \<lparr> calc_Success = 0, calc_Failed = 0, calc_Used = 0, calc_Min = 0, calc_Avg = 0,
             calc_Max = 0, calc_TPS = 0, calc_TPN = (\<lambda>n. n) \<rparr>"

definition env0 :: environ where
  "env0 = \<lparr> NumCPU = 4,
            rand_Read = (\<lambda>k j. word_of_nat (k + j)),
            EncodeClientMessage = (\<lambda>mt p. word_of_int (128 + mt) # word_of_nat (length p) # p),
            BatchBuffers = (\<lambda>m rate maxBytes. (m, 1, rate)),
            GetFrameworkPid = (\<lambda>f ip. Inr 4242),
            NewPSCounter = (\<lambda>pid. Inr ps0),
            NewCalculator = (\<lambda>s. calc0) \<rparr>"

definition echo0 :: BenchEcho where
  "echo0 = bm_New ''nbio_std'' 1000 ''127.0.0.1'' [echo_peer, echo_peer, echo_peer]"

definition echo1 :: BenchEcho where
  "echo1 = (case bm_init env0 (echo0\<lparr>bm_Payload := 4\<rparr>) of Inr bm \<Rightarrow> bm | Inl a \<Rightarrow> echo0)"

definition echoP :: BenchEcho where
  "echoP = (case bm_init env0 (echo0\<lparr>bm_Percents := [10]\<rparr>) of Inr bm \<Rightarrow> bm | Inl a \<Rightarrow> echo0)"

definition echoL :: BenchEcho where
  "echoL = (case bm_init env0 (echo0\<lparr>bm_Limit := 5\<rparr>) of Inr bm \<Rightarrow> bm | Inl a \<Rightarrow> echo0)"

definition rate0 :: BenchRate where
  "rate0 = (br_New ''nbio_std'' ''127.0.0.1'' [0, 1, 2])\<lparr>br_Payload := 4, br_SendRate := 10\<rparr>"

definition rate1 :: BenchRate where
  "rate1 = (case br_init env0 rate0 of Inr br \<Rightarrow> br | Inl a \<Rightarrow> rate0)"

definition rateL :: BenchRate where
  "rateL = (case br_init env0 (rate0\<lparr>br_SendLimit := 5\<rparr>) of Inr br \<Rightarrow> br | Inl a \<Rightarrow> rate0)"

text \<open>
  A schedule on which the closed-loop \<open>Run\<close> gets to its end: the measurement takes
  300 units of time, and the main thread waits for the goroutine's sleep.
\<close>

definition full_schedule :: "choice list" where
  "full_schedule =
     [RunMain, RunMain, RunGoroutine, RunMain, RunGoroutine, Advance 300, RunMain, RunMain,
      Advance 1000000000, RunGoroutine, RunGoroutine, RunMain, RunMain]"

section \<open>Closed-loop session: init\<close>

lemma bm_init_defaults_WarmupTimes:
  "bm_WarmupTimes (bm_init_defaults env bm) =
     (if bm_WarmupTimes bm \<le> 0 then min (5 * int (length (bm_ConnsMap bm))) 2000000
      else bm_WarmupTimes bm)"
  by (simp add: bm_init_defaults_def Let_def)

lemma bm_init_Inr:
  assumes "bm_init env bm0 = Inr bm"
  shows "\<exists>pid ps. bm = (bm_init_defaults env bm0)
           \<lparr>bm_pbuffers := bm_init_pbuffers env (bm_Payload (bm_init_defaults env bm0)),
            bm_wbuffers := bm_init_wbuffers env
                             (bm_init_pbuffers env (bm_Payload (bm_init_defaults env bm0))),
            bm_chConns := bm_ConnsMap (bm_init_defaults env bm0),
            bm_ServerPid := pid, bm_PsCounter := Some ps,
            bm_Calculator := Some (NewCalculator env (bm_Framework (bm_init_defaults env bm0) @ ''-TPS''))\<rparr>"
  using assms by (auto simp: bm_init_def Let_def split: sum.splits)

text \<open>
  Claim C10.  When the warmup count is not configured (\<open>WarmupTimes \<le> 0\<close>), a
  successful \<open>init\<close> of the closed-loop session sets it to five times the number of
  connections, capped at 2,000,000; a configured positive count is left as it is.
\<close>

theorem bm_init_warmup_default:
  assumes "bm_init env bm = Inr bm'"
  shows "bm_WarmupTimes bm' =
           (if bm_WarmupTimes bm \<le> 0 then min (5 * int (length (bm_ConnsMap bm))) 2000000
            else bm_WarmupTimes bm)"
proof -
  from bm_init_Inr[OF assms] obtain pid ps where
    "bm_WarmupTimes bm' = bm_WarmupTimes (bm_init_defaults env bm)"
    by auto
  then show ?thesis by (simp only: bm_init_defaults_WarmupTimes)
qed

lemma bm_init_env0:
  "bm_init env0 bm = Inr (projr (bm_init env0 bm))"
  by (simp add: bm_init_def env0_def Let_def)

theorem bm_init_warmup_default_witness:
  "bm_init env0 echo0 = Inr (projr (bm_init env0 echo0)) \<and>
   bm_WarmupTimes (projr (bm_init env0 echo0)) = 15 \<and>
   bm_init env0 (echo0\<lparr>bm_WarmupTimes := 7\<rparr>) = Inr (projr (bm_init env0 (echo0\<lparr>bm_WarmupTimes := 7\<rparr>))) \<and>
   bm_WarmupTimes (projr (bm_init env0 (echo0\<lparr>bm_WarmupTimes := 7\<rparr>))) = 7 \<and>
   bm_init env0 (echo0\<lparr>bm_ConnsMap := replicate 400001 echo_peer\<rparr>) =
     Inr (projr (bm_init env0 (echo0\<lparr>bm_ConnsMap := replicate 400001 echo_peer\<rparr>))) \<and>
   bm_WarmupTimes (projr (bm_init env0 (echo0\<lparr>bm_ConnsMap := replicate 400001 echo_peer\<rparr>))) = 2000000"
  using bm_init_warmup_default[OF bm_init_env0[of echo0]]
        bm_init_warmup_default[OF bm_init_env0[of "echo0\<lparr>bm_WarmupTimes := 7\<rparr>"]]
        bm_init_warmup_default[OF bm_init_env0[of "echo0\<lparr>bm_ConnsMap := replicate 400001 echo_peer\<rparr>"]]
        bm_init_env0[of echo0] bm_init_env0[of "echo0\<lparr>bm_WarmupTimes := 7\<rparr>"]
        bm_init_env0[of "echo0\<lparr>bm_ConnsMap := replicate 400001 echo_peer\<rparr>"]
  by (simp add: echo0_def bm_New_def)

section \<open>Closed-loop session: one call\<close>

lemma readLoop_returns:
  assumes "0 < psize" "psize \<le> length rb" "nread \<le> length rb"
  shows "\<exists>rb'. readLoop psize rb nread rd =
           Some (if readStatus rd = EOF then Inr (rb', nread + length (received rd))
                 else Inl (readStatus rd)) \<and>
         nread + length (received rd) \<le> length rb' \<and>
         take (nread + length (received rd)) rb' = take nread rb @ received rd"
  using assms
proof (induction "script_size rd" arbitrary: rd rb nread rule: less_induct)
  case less
  define rb1 where "rb1 = (if nread = length rb then rb @ take psize rb else rb)"
  have l1: "nread < length rb1" "psize \<le> length rb1" "take nread rb1 = take nread rb"
    using less.prems by (auto simp: rb1_def)
  show ?case
  proof (cases rd)
    case Nil
    then show ?thesis using less.prems l1
      by (subst readLoop.simps) (auto simp: Let_def rb1_def)
  next
    case (Cons ce rest)
    obtain chunk e where ce: "ce = (chunk, e)" by (cases ce)
    show ?thesis
    proof (cases "length chunk \<le> length rb1 - nread")
      case True
      define rb2 where "rb2 = take nread rb1 @ chunk @ drop (nread + length chunk) rb1"
      have l2: "length rb2 = length rb1" "take (nread + length chunk) rb2 = take nread rb @ chunk"
        using True l1 less.prems by (auto simp: rb2_def min_def)
      show ?thesis
      proof (cases e)
        case None
        have sz: "script_size rest < script_size rd" using Cons ce by simp
        have "psize \<le> length rb2" "nread + length chunk \<le> length rb2"
          using l1 l2 True by auto
        from less.hyps[OF sz \<open>0 < psize\<close> this]
        obtain rb' where h: "readLoop psize rb2 (nread + length chunk) rest =
           Some (if readStatus rest = EOF then Inr (rb', nread + length chunk + length (received rest))
                 else Inl (readStatus rest))"
           "nread + length chunk + length (received rest) \<le> length rb'"
           "take (nread + length chunk + length (received rest)) rb' = take (nread + length chunk) rb2 @ received rest"
          by blast
        have "readLoop psize rb nread rd = readLoop psize rb2 (nread + length chunk) rest"
          using True None Cons ce
          by (subst readLoop.simps) (simp add: Let_def rb1_def[symmetric] rb2_def)
        then show ?thesis using h l2 None Cons ce
          by (intro exI[of _ rb']) (simp add: add.assoc)
      next
        case (Some x)
        have "readLoop psize rb nread rd =
            Some (if x = EOF then Inr (rb2, nread + length chunk) else Inl x)"
          using True Some Cons ce
          by (subst readLoop.simps) (simp add: Let_def rb1_def[symmetric] rb2_def)
        then show ?thesis using l2 Some Cons ce True l1
          by (intro exI[of _ rb2]) auto
      qed
    next
      case False
      define k where "k = length rb1 - nread"
      define rb2 where "rb2 = take nread rb1 @ take k chunk @ drop (nread + k) rb1"
      have k: "0 < k" "k < length chunk" "nread + k = length rb1" using False l1 by (auto simp: k_def)
      have l2: "length rb2 = length rb1" "take (nread + k) rb2 = take nread rb @ take k chunk"
        using k l1 less.prems by (auto simp: rb2_def min_def k_def)
      let ?rd' = "(drop k chunk, e) # rest"
      have sz: "script_size ?rd' < script_size rd" using Cons ce k by simp
      have "psize \<le> length rb2" "nread + k \<le> length rb2"
        using l1 l2 k by auto
      from less.hyps[OF sz \<open>0 < psize\<close> this]
      obtain rb' where h: "readLoop psize rb2 (nread + k) ?rd' =
           Some (if readStatus ?rd' = EOF then Inr (rb', nread + k + length (received ?rd'))
                 else Inl (readStatus ?rd'))"
           "nread + k + length (received ?rd') \<le> length rb'"
           "take (nread + k + length (received ?rd')) rb' = take (nread + k) rb2 @ received ?rd'"
        by blast
      have "readLoop psize rb nread rd = readLoop psize rb2 (nread + k) ?rd'"
        using False Cons ce k
        by (subst readLoop.simps) (simp add: Let_def rb1_def[symmetric] rb2_def k_def[symmetric])
      moreover have "received rd = take k chunk @ received ?rd'" "readStatus rd = readStatus ?rd'"
        using Cons ce by auto
      moreover have "length (received rd) = k + length (received ?rd')"
        using Cons ce k by auto
      ultimately show ?thesis using h l2
        by (intro exI[of _ rb']) (simp add: add.assoc)
    qed
  qed
qed

lemma readLoop_from_pool:
  assumes "0 < length rbuffer"
  shows "\<exists>rb'. readLoop (length rbuffer) rbuffer 0 rd =
           Some (if readStatus rd = EOF then Inr (rb', length (received rd))
                 else Inl (readStatus rd)) \<and>
         take (length (received rd)) rb' = received rd"
  using readLoop_returns[of "length rbuffer" rbuffer 0 rd] assms by auto

lemma bm_doOnce_verdict:
  assumes ch: "bm_chConns bm = conn # rest"
      and gb: "bm_getBuffers bm rnd = Some (pbuffer, wbuffer)"
      and pl: "0 < bm_Payload bm"
  shows "bm_doOnce bm rnd stale =
           Returns (bm\<lparr>bm_chConns := rest @ [conn]\<rparr>, echo_verdict conn pbuffer wbuffer)"
proof (cases "conn_Write conn wbuffer")
  case (Some err)
  then show ?thesis using ch gb by (simp add: bm_doOnce_def echo_verdict_def)
next
  case None
  show ?thesis
  proof (cases "conn_NextReader conn wbuffer")
    case (Inl err)
    then show ?thesis using None ch gb by (simp add: bm_doOnce_def echo_verdict_def)
  next
    case (Inr r)
    obtain mt rd where r: "r = (mt, rd)" by (cases r)
    define rbuffer where "rbuffer = map stale [0..<nat (bm_Payload bm)]"
    have "0 < length rbuffer" using pl by (simp add: rbuffer_def)
    from readLoop_from_pool[OF this, of rd] obtain rb' where
      rl: "readLoop (length rbuffer) rbuffer 0 rd =
             Some (if readStatus rd = EOF then Inr (rb', length (received rd))
                   else Inl (readStatus rd))"
      and tk: "take (length (received rd)) rb' = received rd"
      by blast
    show ?thesis
      using None Inr r ch gb rl tk
      by (simp add: bm_doOnce_def echo_verdict_def Let_def rbuffer_def[symmetric])
  qed
qed

lemma differ_in_one_byte_neq: "differ_in_one_byte xs ys \<Longrightarrow> xs \<noteq> ys"
proof
  assume d: "differ_in_one_byte xs ys" and e: "xs = ys"
  have "filter (\<lambda>(x, y). x \<noteq> y) (zip ys ys) = []"
    by (induction ys) auto
  with d e show False by (simp add: differ_in_one_byte_def)
qed

text \<open>
  Claim C2.  One call of the closed-loop session returns to its caller, with the
  connection back in the queue, and it returns an error exactly when the write fails,
  \<open>NextReader\<close> or a read fails, the message is not binary, or the bytes received
  differ from the payload; a response that differs from the payload in exactly one byte
  makes the call return an error.
\<close>

theorem bm_doOnce_fails_iff:
  assumes "bm_chConns bm = conn # rest"
      and "bm_getBuffers bm rnd = Some (pbuffer, wbuffer)"
      and "0 < bm_Payload bm"
  shows "\<exists>res. bm_doOnce bm rnd stale = Returns (bm\<lparr>bm_chConns := rest @ [conn]\<rparr>, res) \<and>
           (res \<noteq> None \<longleftrightarrow>
              conn_Write conn wbuffer \<noteq> None \<or>
              (case conn_NextReader conn wbuffer of
                 Inl err \<Rightarrow> True
               | Inr (mt, rd) \<Rightarrow>
                   readStatus rd \<noteq> EOF \<or> mt \<noteq> BinaryMessage \<or> received rd \<noteq> pbuffer)) \<and>
           (\<forall>mt rd. conn_Write conn wbuffer = None \<and>
                    conn_NextReader conn wbuffer = Inr (mt, rd) \<and>
                    differ_in_one_byte pbuffer (received rd) \<longrightarrow> res \<noteq> None)"
proof -
  have r: "bm_doOnce bm rnd stale =
      Returns (bm\<lparr>bm_chConns := rest @ [conn]\<rparr>, echo_verdict conn pbuffer wbuffer)"
    by (rule bm_doOnce_verdict[OF assms])
  have iff: "echo_verdict conn pbuffer wbuffer \<noteq> None \<longleftrightarrow>
              conn_Write conn wbuffer \<noteq> None \<or>
              (case conn_NextReader conn wbuffer of
                 Inl err \<Rightarrow> True
               | Inr (mt, rd) \<Rightarrow>
                   readStatus rd \<noteq> EOF \<or> mt \<noteq> BinaryMessage \<or> received rd \<noteq> pbuffer)"
    by (auto simp: echo_verdict_def split: option.splits sum.splits)
  have one: "\<forall>mt rd. conn_Write conn wbuffer = None \<and>
                    conn_NextReader conn wbuffer = Inr (mt, rd) \<and>
                    differ_in_one_byte pbuffer (received rd) \<longrightarrow>
                    echo_verdict conn pbuffer wbuffer \<noteq> None"
    using differ_in_one_byte_neq by (auto simp: echo_verdict_def)
  show ?thesis using r iff one by blast
qed


lemma bm_getBuffers_1024:
  assumes "length (bm_pbuffers bm) = 1024" "length (bm_wbuffers bm) = 1024"
  shows "bm_getBuffers bm rnd =
           Some (bm_pbuffers bm ! (rnd mod 1024), bm_wbuffers bm ! (rnd mod 1024))"
proof -
  have lt: "rnd mod 1024 < 1024" by simp
  have "unat (word_of_nat (rnd mod 1024) :: 32 word) = rnd mod 1024"
    using lt by (simp add: unat_of_nat)
  moreover have "unat (word_of_nat 1024 :: 32 word) = 1024"
    by simp
  ultimately have "unat ((word_of_nat (rnd mod 1024) :: 32 word) mod word_of_nat 1024) = rnd mod 1024"
    by (simp add: unat_mod)
  then show ?thesis using assms lt
    by (simp add: bm_getBuffers_def rand_Intn_def Let_def)
qed

lemma bm_getBuffers_chConns:
  "bm_getBuffers (bm\<lparr>bm_chConns := c\<rparr>) rnd = bm_getBuffers bm rnd"
  by (simp add: bm_getBuffers_def Let_def split: option.splits)

lemma bm_init_pbuffers_nth:
  "i < 1024 \<Longrightarrow> bm_init_pbuffers env payload ! i = map (rand_Read env i) [0..<nat payload]"
  by (simp add: bm_init_pbuffers_def)

lemma length_bm_init_pbuffers: "length (bm_init_pbuffers env payload) = 1024"
  by (simp add: bm_init_pbuffers_def)

lemma bm_init_wbuffers_nth:
  "i < length pbufs \<Longrightarrow>
     bm_init_wbuffers env pbufs ! i = EncodeClientMessage env BinaryMessage (pbufs ! i)"
  by (simp add: bm_init_wbuffers_def)

lemma length_bm_init_wbuffers: "length (bm_init_wbuffers env pbufs) = length pbufs"
  by (simp add: bm_init_wbuffers_def)

lemma bm_init_defaults_Payload:
  "bm_Payload (bm_init_defaults env bm) = (if bm_Payload bm \<le> 0 then 1024 else bm_Payload bm)"
  by (simp add: bm_init_defaults_def Let_def)

lemma bm_init_defaults_ConnsMap:
  "bm_ConnsMap (bm_init_defaults env bm) = bm_ConnsMap bm"
  by (simp add: bm_init_defaults_def Let_def)

lemma echo1_fields:
  "bm_chConns echo1 = [echo_peer, echo_peer, echo_peer]"
  "bm_Payload echo1 = 4"
  "bm_pbuffers echo1 = bm_init_pbuffers env0 4"
  "bm_wbuffers echo1 = bm_init_wbuffers env0 (bm_init_pbuffers env0 4)"
proof -
  have i: "bm_init env0 (echo0\<lparr>bm_Payload := 4\<rparr>) = Inr echo1"
    using bm_init_env0[of "echo0\<lparr>bm_Payload := 4\<rparr>"]
    by (cases "bm_init env0 (echo0\<lparr>bm_Payload := 4\<rparr>)") (auto simp: echo1_def)
  from bm_init_Inr[OF i] obtain pid ps where
    e: "echo1 = (bm_init_defaults env0 (echo0\<lparr>bm_Payload := 4\<rparr>))
           \<lparr>bm_pbuffers := bm_init_pbuffers env0 (bm_Payload (bm_init_defaults env0 (echo0\<lparr>bm_Payload := 4\<rparr>))),
            bm_wbuffers := bm_init_wbuffers env0
                             (bm_init_pbuffers env0 (bm_Payload (bm_init_defaults env0 (echo0\<lparr>bm_Payload := 4\<rparr>)))),
            bm_chConns := bm_ConnsMap (bm_init_defaults env0 (echo0\<lparr>bm_Payload := 4\<rparr>)),
            bm_ServerPid := pid, bm_PsCounter := Some ps,
            bm_Calculator := Some (NewCalculator env0 (bm_Framework (bm_init_defaults env0 (echo0\<lparr>bm_Payload := 4\<rparr>)) @ ''-TPS''))\<rparr>"
    by blast
  show "bm_chConns echo1 = [echo_peer, echo_peer, echo_peer]"
    by (subst e) (simp add: bm_init_defaults_ConnsMap echo0_def bm_New_def)
  show "bm_Payload echo1 = 4"
    by (subst e) (simp add: bm_init_defaults_Payload)
  show "bm_pbuffers echo1 = bm_init_pbuffers env0 4"
    by (subst e) (simp add: bm_init_defaults_Payload)
  show "bm_wbuffers echo1 = bm_init_wbuffers env0 (bm_init_pbuffers env0 4)"
    by (subst e) (simp add: bm_init_defaults_Payload)
qed

lemma echo1_getBuffers:
  "bm_getBuffers echo1 5 = Some ([5, 6, 7, 8], [130, 4, 5, 6, 7, 8])"
proof -
  have "bm_getBuffers echo1 5 = Some (bm_pbuffers echo1 ! (5 mod 1024), bm_wbuffers echo1 ! (5 mod 1024))"
    by (rule bm_getBuffers_1024)
       (simp_all add: echo1_fields length_bm_init_pbuffers length_bm_init_wbuffers)
  moreover have "bm_init_pbuffers env0 4 ! 5 = [5, 6, 7, 8]"
    by (simp add: bm_init_pbuffers_nth env0_def upt_rec)
  ultimately show ?thesis
    by (simp add: echo1_fields bm_init_wbuffers_nth length_bm_init_pbuffers env0_def
                  BinaryMessage_def)
qed

theorem bm_doOnce_fails_iff_witness:
  "bm_chConns echo1 = echo_peer # [echo_peer, echo_peer] \<and>
   bm_getBuffers echo1 5 = Some ([5, 6, 7, 8], [130, 4, 5, 6, 7, 8]) \<and>
   0 < bm_Payload echo1 \<and>
   bm_doOnce echo1 5 (\<lambda>j. 0) =
     Returns (echo1\<lparr>bm_chConns := [echo_peer, echo_peer] @ [echo_peer]\<rparr>, None) \<and>
   bm_chConns (echo1\<lparr>bm_chConns := [flip_peer]\<rparr>) = flip_peer # [] \<and>
   bm_getBuffers (echo1\<lparr>bm_chConns := [flip_peer]\<rparr>) 5 = Some ([5, 6, 7, 8], [130, 4, 5, 6, 7, 8]) \<and>
   0 < bm_Payload (echo1\<lparr>bm_chConns := [flip_peer]\<rparr>) \<and>
   differ_in_one_byte [5, 6, 7, 8] (received [([5, 6], None), ([7, 9], None)]) \<and>
   (\<exists>e. bm_doOnce (echo1\<lparr>bm_chConns := [flip_peer]\<rparr>) 5 (\<lambda>j. 0) =
     Returns (echo1\<lparr>bm_chConns := [] @ [flip_peer]\<rparr>, Some e))"
proof -
  have h1: "bm_chConns echo1 = echo_peer # [echo_peer, echo_peer]"
    by (simp add: echo1_fields)
  have h2: "bm_getBuffers echo1 5 = Some ([5, 6, 7, 8], [130, 4, 5, 6, 7, 8])"
    by (rule echo1_getBuffers)
  have h3: "0 < bm_Payload echo1"
    by (simp add: echo1_fields)
  have g1: "bm_chConns (echo1\<lparr>bm_chConns := [flip_peer]\<rparr>) = flip_peer # []"
    by simp
  have g2: "bm_getBuffers (echo1\<lparr>bm_chConns := [flip_peer]\<rparr>) 5 = Some ([5, 6, 7, 8], [130, 4, 5, 6, 7, 8])"
    using h2 by (simp only: bm_getBuffers_chConns)
  have g3: "0 < bm_Payload (echo1\<lparr>bm_chConns := [flip_peer]\<rparr>)"
    using h3 by simp
  have d: "differ_in_one_byte [5, 6, 7, 8] (received [([5, 6], None), ([7, 9], None)])"
    by (simp add: differ_in_one_byte_def)
  from bm_doOnce_fails_iff[OF h1 h2 h3, of "\<lambda>j. 0"]
  have c1: "bm_doOnce echo1 5 (\<lambda>j. 0) =
     Returns (echo1\<lparr>bm_chConns := [echo_peer, echo_peer] @ [echo_peer]\<rparr>, None)"
    by (auto simp: echo_peer_def BinaryMessage_def)
  from bm_doOnce_fails_iff[OF g1 g2 g3, of "\<lambda>j. 0"] d
  have c2: "\<exists>e. bm_doOnce (echo1\<lparr>bm_chConns := [flip_peer]\<rparr>) 5 (\<lambda>j. 0) =
     Returns (echo1\<lparr>bm_chConns := [] @ [flip_peer]\<rparr>, Some e)"
    by (auto simp: flip_peer_def BinaryMessage_def)
  show ?thesis using h1 h2 h3 g1 g2 g3 d c1 c2 by blast
qed

section \<open>Open-loop session: backpressure\<close>

subsection \<open>The loop body and the loop\<close>

lemma br_doOnce_conn_fst_config:
  "br_batch (fst (br_doOnce_conn werr p s)) = br_batch (fst s) \<and>
   br_wbuffer (fst (br_doOnce_conn werr p s)) = br_wbuffer (fst s) \<and>
   br_batchBuffer (fst (br_doOnce_conn werr p s)) = br_batchBuffer (fst s) \<and>
   br_Payload (fst (br_doOnce_conn werr p s)) = br_Payload (fst s)"
  by (cases s) (simp add: br_doOnce_conn_def Let_def split: option.splits)

lemma br_doOnce_conn_other:
  "q \<noteq> p \<Longrightarrow> snd (br_doOnce_conn werr p s) q = snd s q"
  by (cases s) (simp add: br_doOnce_conn_def Let_def split: option.splits)

lemma br_doOnce_conn_recvCnt:
  "recvCnt (snd (br_doOnce_conn werr p s) q) = recvCnt (snd s q)"
  by (cases s) (simp add: br_doOnce_conn_def Let_def split: option.splits)

lemma br_doOnce_conn_bound:
  assumes "outstanding (snd s q) \<le> 5 * br_batch (fst s)"
  shows "outstanding (snd (br_doOnce_conn werr p s) q) \<le> 5 * br_batch (fst s)"
  using assms
  by (cases s) (auto simp: br_doOnce_conn_def Let_def outstanding_def split: option.splits)

lemma br_doOnce_conn_skip:
  assumes "0 \<le> br_batch (fst s)" "5 * br_batch (fst s) \<le> outstanding (snd s q)"
  shows "snd (br_doOnce_conn werr p s) q = snd s q"
  using assms
  by (cases s) (auto simp: br_doOnce_conn_def Let_def outstanding_def split: option.splits)

lemma br_doOnce_fst_config:
  "br_batch (fst (br_doOnce werr conns s)) = br_batch (fst s) \<and>
   br_wbuffer (fst (br_doOnce werr conns s)) = br_wbuffer (fst s) \<and>
   br_batchBuffer (fst (br_doOnce werr conns s)) = br_batchBuffer (fst s) \<and>
   br_Payload (fst (br_doOnce werr conns s)) = br_Payload (fst s)"
  by (induction conns arbitrary: s) (simp_all add: br_doOnce_conn_fst_config)

lemma br_doOnce_recvCnt:
  "recvCnt (snd (br_doOnce werr conns s) q) = recvCnt (snd s q)"
  by (induction conns arbitrary: s) (simp_all add: br_doOnce_conn_recvCnt)

lemma br_doOnce_bound:
  assumes "outstanding (snd s q) \<le> 5 * br_batch (fst s)"
  shows "outstanding (snd (br_doOnce werr conns s) q) \<le> 5 * br_batch (fst s)"
  using assms
proof (induction conns arbitrary: s)
  case Nil
  then show ?case by simp
next
  case (Cons p conns)
  have "outstanding (snd (br_doOnce_conn werr p s) q) \<le> 5 * br_batch (fst (br_doOnce_conn werr p s))"
    using br_doOnce_conn_bound[OF Cons.prems] by (simp add: br_doOnce_conn_fst_config)
  from Cons.IH[OF this] show ?case by (simp add: br_doOnce_conn_fst_config)
qed

lemma br_doOnce_skip:
  assumes "0 \<le> br_batch (fst s)" "5 * br_batch (fst s) \<le> outstanding (snd s q)"
  shows "snd (br_doOnce werr conns s) q = snd s q"
  using assms
proof (induction conns arbitrary: s)
  case Nil
  then show ?case by simp
next
  case (Cons p conns)
  have e: "snd (br_doOnce_conn werr p s) q = snd s q"
    by (rule br_doOnce_conn_skip[OF Cons.prems])
  have "snd (br_doOnce werr conns (br_doOnce_conn werr p s)) q = snd (br_doOnce_conn werr p s) q"
    by (rule Cons.IH) (use Cons.prems e in \<open>simp_all add: br_doOnce_conn_fst_config\<close>)
  then show ?case using e by simp
qed

subsection \<open>Messages and runs\<close>

lemma br_onMessage_fst_config:
  "br_batch (fst (br_onMessage c mt b s)) = br_batch (fst s) \<and>
   br_wbuffer (fst (br_onMessage c mt b s)) = br_wbuffer (fst s) \<and>
   br_batchBuffer (fst (br_onMessage c mt b s)) = br_batchBuffer (fst s) \<and>
   br_Payload (fst (br_onMessage c mt b s)) = br_Payload (fst s)"
  by (cases s) (simp add: br_onMessage_def)

lemma br_onMessage_bound:
  assumes "outstanding (snd s q) \<le> 5 * br_batch (fst s)"
  shows "outstanding (snd (br_onMessage c mt b s) q) \<le> 5 * br_batch (fst s)"
  using assms by (cases s) (auto simp: br_onMessage_def outstanding_def)

lemma br_event_fst_config:
  "br_batch (fst (br_event e s)) = br_batch (fst s) \<and>
   br_wbuffer (fst (br_event e s)) = br_wbuffer (fst s) \<and>
   br_batchBuffer (fst (br_event e s)) = br_batchBuffer (fst s) \<and>
   br_Payload (fst (br_event e s)) = br_Payload (fst s)"
  by (cases e) (simp_all add: br_doOnce_fst_config br_onMessage_fst_config)

lemma br_event_bound:
  assumes "outstanding (snd s q) \<le> 5 * br_batch (fst s)"
  shows "outstanding (snd (br_event e s) q) \<le> 5 * br_batch (fst s)"
  using assms by (cases e) (simp_all add: br_doOnce_bound br_onMessage_bound)

lemma br_run_fst_config:
  "br_batch (fst (br_run es s)) = br_batch (fst s) \<and>
   br_wbuffer (fst (br_run es s)) = br_wbuffer (fst s) \<and>
   br_batchBuffer (fst (br_run es s)) = br_batchBuffer (fst s) \<and>
   br_Payload (fst (br_run es s)) = br_Payload (fst s)"
  by (induction es arbitrary: s) (simp_all add: br_event_fst_config)

lemma br_run_bound:
  assumes "outstanding (snd s q) \<le> 5 * br_batch (fst s)"
  shows "outstanding (snd (br_run es s) q) \<le> 5 * br_batch (fst s)"
  using assms
proof (induction es arbitrary: s)
  case Nil
  then show ?case by simp
next
  case (Cons e es)
  have "outstanding (snd (br_event e s) q) \<le> 5 * br_batch (fst (br_event e s))"
    using br_event_bound[OF Cons.prems] by (simp add: br_event_fst_config)
  from Cons.IH[OF this] show ?case by (simp add: br_event_fst_config)
qed

lemma br_run_ticks_recvCnt:
  assumes "list_all is_Tick es"
  shows "recvCnt (snd (br_run es s) q) = recvCnt (snd s q)"
  using assms
proof (induction es arbitrary: s)
  case Nil
  then show ?case by simp
next
  case (Cons e es)
  then obtain conns werr where "e = Tick conns werr" by (cases e) auto
  with Cons show ?case by (simp add: br_doOnce_recvCnt)
qed

text \<open>
  Claim C1.  From the connections as \<open>Run\<close> creates them and a batch size that is
  not negative, after every sequence of ticks and delivered messages the sends of a
  connection that are not yet answered do not exceed five times the batch size.  A
  connection that has reached that bound gets no write and no count from \<open>doOnce\<close>:
  its \<open>Conn\<close> is left as it is.  When no message ever arrives the send count itself
  stays within the bound.
\<close>

theorem br_backpressure:
  assumes "0 \<le> br_batch br"
  shows "outstanding (snd (br_run es (br, \<lambda>p. new_Conn)) q) \<le> 5 * br_batch br \<and>
         (5 * br_batch br \<le> outstanding (h q) \<longrightarrow>
            snd (br_doOnce werr conns (br, h)) q = h q) \<and>
         (list_all is_Tick es \<longrightarrow>
            sendCnt (snd (br_run es (br, \<lambda>p. new_Conn)) q) \<le> 5 * br_batch br)"
proof -
  have init: "outstanding (snd (br, \<lambda>p. new_Conn) q) \<le> 5 * br_batch (fst (br, \<lambda>p::nat. new_Conn))"
    using assms by (simp add: outstanding_def new_Conn_def)
  have b: "outstanding (snd (br_run es (br, \<lambda>p. new_Conn)) q) \<le> 5 * br_batch br"
    using br_run_bound[OF init, of es] by simp
  have s: "5 * br_batch br \<le> outstanding (h q) \<longrightarrow> snd (br_doOnce werr conns (br, h)) q = h q"
    using br_doOnce_skip[of "(br, h)" q werr conns] assms by simp
  have t: "list_all is_Tick es \<longrightarrow> sendCnt (snd (br_run es (br, \<lambda>p. new_Conn)) q) \<le> 5 * br_batch br"
  proof
    assume "list_all is_Tick es"
    from br_run_ticks_recvCnt[OF this, of "(br, \<lambda>p. new_Conn)" q]
    have "recvCnt (snd (br_run es (br, \<lambda>p. new_Conn)) q) = 0"
      by (simp add: new_Conn_def)
    with b show "sendCnt (snd (br_run es (br, \<lambda>p. new_Conn)) q) \<le> 5 * br_batch br"
      by (simp add: outstanding_def)
  qed
  show ?thesis using b s t by blast
qed

section \<open>Open-loop session: init\<close>

lemma br_init_defaults_fields:
  "br_Payload (br_init_defaults br) = (if br_Payload br \<le> 0 then 1024 else br_Payload br)"
  "br_SendRate (br_init_defaults br) = (if br_SendRate br \<le> 0 then 1 else br_SendRate br)"
  "br_ConnsMap (br_init_defaults br) = br_ConnsMap br"
  "br_SendLimit (br_init_defaults br) = br_SendLimit br"
  "br_limitFn (br_init_defaults br) = br_limitFn br"
  "br_sendTimes (br_init_defaults br) = br_sendTimes br"
  "br_recvTimes (br_init_defaults br) = br_recvTimes br"
  by (simp_all add: br_init_defaults_def Let_def)

lemma br_init_batch_fields:
  "br_wbuffer (br_init_batch env br) = map (rand_Read env 0) [0..<nat (br_Payload br)]"
  "br_batchBuffer (br_init_batch env br) =
     fst (BatchBuffers env (EncodeClientMessage env BinaryMessage
            (map (rand_Read env 0) [0..<nat (br_Payload br)])) (br_SendRate br) 8192)"
  "br_batch (br_init_batch env br) =
     fst (snd (BatchBuffers env (EncodeClientMessage env BinaryMessage
            (map (rand_Read env 0) [0..<nat (br_Payload br)])) (br_SendRate br) 8192))"
  "br_tickRate (br_init_batch env br) =
     snd (snd (BatchBuffers env (EncodeClientMessage env BinaryMessage
            (map (rand_Read env 0) [0..<nat (br_Payload br)])) (br_SendRate br) 8192))"
  "br_Payload (br_init_batch env br) = br_Payload br"
  "br_SendLimit (br_init_batch env br) = br_SendLimit br"
  "br_limitFn (br_init_batch env br) = br_limitFn br"
  by (simp_all add: br_init_batch_def Let_def split: prod.splits)

lemma br_init_limit_fields:
  "br_wbuffer (br_init_limit br) = br_wbuffer br"
  "br_batchBuffer (br_init_limit br) = br_batchBuffer br"
  "br_batch (br_init_limit br) = br_batch br"
  "br_tickRate (br_init_limit br) = br_tickRate br"
  "br_Payload (br_init_limit br) = br_Payload br"
  "br_limitFn (br_init_limit br) =
     (if br_SendLimit br > 0
      then LimiterWaitN Background (br_SendLimit br)
             (int (length (br_batchBuffer br)) div br_Payload br)
      else br_limitFn br)"
  by (simp_all add: br_init_limit_def Let_def)

lemma br_init_Inr:
  assumes "br_init env br0 = Inr br"
  shows "\<exists>pid ps. br = (br_init_limit (br_init_batch env (br_init_defaults br0)))
                         \<lparr>br_ServerPid := pid, br_PsCounter := Some ps\<rparr> \<and>
           0 < br_tickRate (br_init_batch env (br_init_defaults br0)) \<and>
           br_batchBuffer (br_init_batch env (br_init_defaults br0)) \<noteq> []"
  using assms by (auto simp: br_init_def Let_def split: sum.splits if_splits)

lemma br_init_names:
  "br_Framework (br_init_limit (br_init_batch env (br_init_defaults br))) = br_Framework br"
  "br_Ip (br_init_limit (br_init_batch env (br_init_defaults br))) = br_Ip br"
proof -
  have l: "br_Framework (br_init_limit b) = br_Framework b" "br_Ip (br_init_limit b) = br_Ip b"
    for b by (simp_all add: br_init_limit_def Let_def)
  have t: "br_Framework (br_init_batch env b) = br_Framework b"
    "br_Ip (br_init_batch env b) = br_Ip b"
    for b by (simp_all add: br_init_batch_def Let_def split: prod.splits)
  have d: "br_Framework (br_init_defaults b) = br_Framework b"
    "br_Ip (br_init_defaults b) = br_Ip b"
    for b by (simp_all add: br_init_defaults_def Let_def)
  show "br_Framework (br_init_limit (br_init_batch env (br_init_defaults br))) = br_Framework br"
    by (simp only: l t d)
  show "br_Ip (br_init_limit (br_init_batch env (br_init_defaults br))) = br_Ip br"
    by (simp only: l t d)
qed

text \<open>
  Claim C7.  \<open>init\<close> of the open-loop session ends in the fatal error of the batch
  check exactly when \<open>BatchBuffers\<close>, called with the encoded send buffer, the send
  rate and 8192, returns a tick rate that is not positive or an empty batch buffer; in
  every session that \<open>init\<close> returns, the tick rate is at least 1 and the batch buffer
  is not empty; and when the pid lookup and the sampler's constructor succeed, \<open>init\<close>
  aborts in no other case.
\<close>

theorem br_init_fatal_iff:
  "(br_init env br0 = Inl (Fatalf ''BenchRate get wrong tickRate: %v, or batchBuffer: %v'')
      \<longleftrightarrow>
    (case BatchBuffers env
            (EncodeClientMessage env BinaryMessage
               (map (rand_Read env 0)
                    [0..<nat (if br_Payload br0 \<le> 0 then 1024 else br_Payload br0)]))
            (if br_SendRate br0 \<le> 0 then 1 else br_SendRate br0) 8192 of
       (batchBuffer, batch, tickRate) \<Rightarrow> tickRate \<le> 0 \<or> length batchBuffer = 0)) \<and>
   (\<forall>br. br_init env br0 = Inr br \<longrightarrow> 1 \<le> br_tickRate br \<and> br_batchBuffer br \<noteq> []) \<and>
   ((\<exists>pid ps. GetFrameworkPid env (br_Framework br0) (br_Ip br0) = Inr pid \<and>
              NewPSCounter env pid = Inr ps) \<longrightarrow>
      ((\<exists>a. br_init env br0 = Inl a) \<longleftrightarrow>
       (case BatchBuffers env
            (EncodeClientMessage env BinaryMessage
               (map (rand_Read env 0)
                    [0..<nat (if br_Payload br0 \<le> 0 then 1024 else br_Payload br0)]))
            (if br_SendRate br0 \<le> 0 then 1 else br_SendRate br0) 8192 of
          (batchBuffer, batch, tickRate) \<Rightarrow> tickRate \<le> 0 \<or> length batchBuffer = 0)))"
proof -
  let ?B = "br_init_batch env (br_init_defaults br0)"
  have f: "br_init env br0 = Inl (Fatalf ''BenchRate get wrong tickRate: %v, or batchBuffer: %v'')
          \<longleftrightarrow> br_tickRate ?B \<le> 0 \<or> length (br_batchBuffer ?B) = 0"
    by (auto simp: br_init_def Let_def split: sum.splits)
  have s: "\<forall>br. br_init env br0 = Inr br \<longrightarrow> 1 \<le> br_tickRate br \<and> br_batchBuffer br \<noteq> []"
  proof (intro allI impI)
    fix br assume "br_init env br0 = Inr br"
    from br_init_Inr[OF this] show "1 \<le> br_tickRate br \<and> br_batchBuffer br \<noteq> []"
      by (auto simp: br_init_limit_fields)
  qed
  have l: "(\<exists>pid ps. GetFrameworkPid env (br_Framework br0) (br_Ip br0) = Inr pid \<and>
              NewPSCounter env pid = Inr ps) \<longrightarrow>
      ((\<exists>a. br_init env br0 = Inl a) \<longleftrightarrow>
         br_tickRate ?B \<le> 0 \<or> length (br_batchBuffer ?B) = 0)"
  proof
    assume "\<exists>pid ps. GetFrameworkPid env (br_Framework br0) (br_Ip br0) = Inr pid \<and>
              NewPSCounter env pid = Inr ps"
    then obtain pid ps where p: "GetFrameworkPid env (br_Framework br0) (br_Ip br0) = Inr pid"
      "NewPSCounter env pid = Inr ps"
      by blast
    show "(\<exists>a. br_init env br0 = Inl a) \<longleftrightarrow>
         br_tickRate ?B \<le> 0 \<or> length (br_batchBuffer ?B) = 0"
    proof (cases "br_tickRate ?B \<le> 0 \<or> length (br_batchBuffer ?B) = 0")
      case True
      with f show ?thesis by blast
    next
      case False
      then have "\<exists>br. br_init env br0 = Inr br"
        using p by (simp add: br_init_def Let_def br_init_names)
      with False show ?thesis by auto
    qed
  qed
  have c: "(br_tickRate ?B \<le> 0 \<or> length (br_batchBuffer ?B) = 0) \<longleftrightarrow>
     (case BatchBuffers env
            (EncodeClientMessage env BinaryMessage
               (map (rand_Read env 0)
                    [0..<nat (if br_Payload br0 \<le> 0 then 1024 else br_Payload br0)]))
            (if br_SendRate br0 \<le> 0 then 1 else br_SendRate br0) 8192 of
          (batchBuffer, batch, tickRate) \<Rightarrow> tickRate \<le> 0 \<or> length batchBuffer = 0)"
    by (simp add: br_init_batch_fields br_init_defaults_fields split: prod.splits)
  show ?thesis
    using f s l unfolding c by (intro conjI)
qed

lemma br_init_env0:
  "br_init env0 rate0 = Inr rate1"
  by (simp add: rate1_def br_init_def br_init_batch_def br_init_defaults_def env0_def Let_def
        rate0_def br_New_def)

lemma rate1_fields:
  "br_batch rate1 = 1" "br_tickRate rate1 = 10" "br_Payload rate1 = 4"
  "br_wbuffer rate1 = [0, 1, 2, 3]" "br_batchBuffer rate1 = [130, 4, 0, 1, 2, 3]"
  "br_sendTimes rate1 = 0" "br_sendBytes rate1 = 0" "br_recvTimes rate1 = 0"
  "br_recvBytes rate1 = 0" "br_limitFn rate1 = Nop"
proof -
  from br_init_Inr[OF br_init_env0] obtain pid ps where
    e: "rate1 = (br_init_limit (br_init_batch env0 (br_init_defaults rate0)))
                         \<lparr>br_ServerPid := pid, br_PsCounter := Some ps\<rparr>"
    by blast
  have p: "br_Payload (br_init_defaults rate0) = 4" "br_SendRate (br_init_defaults rate0) = 10"
    by (simp_all add: br_init_defaults_fields rate0_def)
  have w: "map (rand_Read env0 0) [0..<4] = [0, 1, 2, 3]"
    by (simp add: env0_def upt_rec)
  show "br_batch rate1 = 1" "br_tickRate rate1 = 10" "br_Payload rate1 = 4"
    "br_wbuffer rate1 = [0, 1, 2, 3]" "br_batchBuffer rate1 = [130, 4, 0, 1, 2, 3]"
    by (simp_all add: e br_init_limit_fields br_init_batch_fields p w)
       (simp_all add: env0_def BinaryMessage_def)
  show "br_sendTimes rate1 = 0" "br_sendBytes rate1 = 0" "br_recvTimes rate1 = 0"
    "br_recvBytes rate1 = 0" "br_limitFn rate1 = Nop"
    by (simp_all add: e br_init_limit_def br_init_batch_def br_init_defaults_def Let_def
          rate0_def br_New_def split: prod.splits)
qed

theorem br_init_fatal_iff_witness:
  "br_init env0 rate0 = Inr rate1 \<and> 1 \<le> br_tickRate rate1 \<and> br_batchBuffer rate1 \<noteq> [] \<and>
   GetFrameworkPid env0 (br_Framework rate0) (br_Ip rate0) = Inr 4242 \<and>
   NewPSCounter env0 4242 = Inr ps0 \<and>
   br_init (env0\<lparr>BatchBuffers := (\<lambda>m r n. ([], 0, 0))\<rparr>) rate0 =
     Inl (Fatalf ''BenchRate get wrong tickRate: %v, or batchBuffer: %v'')"
proof -
  have a: "1 \<le> br_tickRate rate1 \<and> br_batchBuffer rate1 \<noteq> []"
    using br_init_fatal_iff[of env0 rate0] br_init_env0 by blast
  have b: "br_init (env0\<lparr>BatchBuffers := (\<lambda>m r n. ([], 0, 0))\<rparr>) rate0 =
     Inl (Fatalf ''BenchRate get wrong tickRate: %v, or batchBuffer: %v'')"
    using br_init_fatal_iff[of "env0\<lparr>BatchBuffers := (\<lambda>m r n. ([], 0, 0))\<rparr>" rate0]
    by simp
  have c: "GetFrameworkPid env0 (br_Framework rate0) (br_Ip rate0) = Inr 4242"
    "NewPSCounter env0 4242 = Inr ps0"
    by (simp_all add: env0_def)
  show ?thesis using a b c br_init_env0 by simp
qed

section \<open>Open-loop session: counters\<close>

theorem br_backpressure_witness:
  "0 \<le> br_batch rate1 \<and>
   list_all is_Tick (replicate 6 (Tick [0] (\<lambda>p. None))) \<and>
   sendCnt (snd (br_run (replicate 6 (Tick [0] (\<lambda>p. None))) (rate1, \<lambda>p. new_Conn)) 0) = 4 \<and>
   outstanding (snd (br_run (replicate 6 (Tick [0] (\<lambda>p. None))) (rate1, \<lambda>p. new_Conn)) 0)
     \<le> 5 * br_batch rate1 \<and>
   5 * br_batch rate1 \<le> outstanding (new_Conn\<lparr>sendCnt := 5\<rparr>) \<and>
   snd (br_doOnce (\<lambda>p. None) [0] (rate1, \<lambda>p. new_Conn\<lparr>sendCnt := 5\<rparr>)) 0
     = new_Conn\<lparr>sendCnt := 5\<rparr>"
proof -
  have h: "0 \<le> br_batch rate1" by (simp add: rate1_fields)
  have t: "list_all is_Tick (replicate 6 (Tick [0] (\<lambda>p. None)))"
    by (simp add: list_all_length)
  have o: "5 * br_batch rate1 \<le> outstanding (new_Conn\<lparr>sendCnt := 5\<rparr>)"
    by (simp add: rate1_fields outstanding_def new_Conn_def)
  have r: "replicate 6 x = [x, x, x, x, x, x]" for x :: event
    by (simp add: numeral_eq_Suc)
  have s: "sendCnt (snd (br_run (replicate 6 (Tick [0] (\<lambda>p. None))) (rate1, \<lambda>p. new_Conn)) 0) = 4"
    by (simp add: r br_doOnce_conn_def rate1_fields new_Conn_def Let_def)
  from br_backpressure[OF h, of "replicate 6 (Tick [0] (\<lambda>p. None))" 0
         "\<lambda>p. new_Conn\<lparr>sendCnt := 5\<rparr>" "\<lambda>p. None" "[0]"]
  show ?thesis using h t o s by simp
qed

text \<open>
  Claim C3.  For a connection that passes the check of \<open>doOnce\<close>, the batch buffer is
  written once.  When the write returns no error, the connection's send count and the
  session's send count grow by the batch size and the session's send bytes by the batch
  size times the payload size; when it returns an error, no counter changes and the
  session is left as it is.
\<close>

theorem br_doOnce_conn_counts:
  assumes "sendCnt (h p) - recvCnt (h p) + br_batch br < br_batch br * 5"
  shows "br_doOnce_conn werr p (br, h) =
           (if werr p = None
            then (br\<lparr>br_sendTimes := br_sendTimes br + br_batch br,
                     br_sendBytes := br_sendBytes br + br_batch br * br_Payload br\<rparr>,
                  h(p := (h p)\<lparr>net_writes := net_writes (h p) @ [br_batchBuffer br],
                               sendCnt := sendCnt (h p) + br_batch br\<rparr>))
            else (br, h(p := (h p)\<lparr>net_writes := net_writes (h p) @ [br_batchBuffer br]\<rparr>)))"
  using assms by (auto simp: br_doOnce_conn_def Let_def split: option.splits)

theorem br_doOnce_conn_counts_witness:
  "sendCnt new_Conn - recvCnt new_Conn + br_batch rate1 < br_batch rate1 * 5 \<and>
   br_doOnce_conn (\<lambda>p. None) 0 (rate1, \<lambda>p. new_Conn) =
     (rate1\<lparr>br_sendTimes := 1, br_sendBytes := 4\<rparr>,
      (\<lambda>p. new_Conn)(0 := new_Conn\<lparr>net_writes := [[130, 4, 0, 1, 2, 3]], sendCnt := 1\<rparr>)) \<and>
   br_doOnce_conn (\<lambda>p. Some (Err ''broken pipe'')) 0 (rate1, \<lambda>p. new_Conn) =
     (rate1, (\<lambda>p. new_Conn)(0 := new_Conn\<lparr>net_writes := [[130, 4, 0, 1, 2, 3]]\<rparr>))"
proof -
  have h: "sendCnt ((\<lambda>p::nat. new_Conn) 0) - recvCnt ((\<lambda>p::nat. new_Conn) 0) + br_batch rate1
             < br_batch rate1 * 5"
    by (simp add: rate1_fields new_Conn_def)
  show ?thesis
    using h br_doOnce_conn_counts[OF h, of "\<lambda>p. None"]
          br_doOnce_conn_counts[OF h, of "\<lambda>p. Some (Err ''broken pipe'')"]
    by (simp add: rate1_fields new_Conn_def)
qed

text \<open>
  Claim C4, as the code has it.  A delivered message is counted exactly when its type
  is binary and its payload equals the send buffer: then the connection's receive count
  and the session's receive count grow by one and the session's receive bytes by the
  length of the payload.  Any other message changes nothing.
\<close>

theorem br_onMessage_counts:
  "br_onMessage c mt b (br, h) =
     (if mt = BinaryMessage \<and> b = br_wbuffer br
      then (br\<lparr>br_recvTimes := br_recvTimes br + 1,
               br_recvBytes := br_recvBytes br + int (length b)\<rparr>,
            h(c := (h c)\<lparr>recvCnt := recvCnt (h c) + 1\<rparr>))
      else (br, h))"
  by (simp add: br_onMessage_def br_getWriteBuffer_def)

text \<open>
  A text message that carries exactly the bytes of the send buffer is not counted, so
  equality of the payload alone does not decide the count.
\<close>

theorem br_onMessage_text_not_counted:
  "br_wbuffer rate1 = [0, 1, 2, 3] \<and>
   br_onMessage 0 TextMessage [0, 1, 2, 3] (rate1, \<lambda>p. new_Conn) = (rate1, \<lambda>p. new_Conn)"
  by (simp add: br_onMessage_def br_getWriteBuffer_def rate1_fields TextMessage_def
        BinaryMessage_def)

section \<open>The payload buffers\<close>

lemma bm_getBuffers_Some:
  assumes "bm_getBuffers bm rnd = Some (p, w)"
  shows "\<exists>i. i < length (bm_pbuffers bm) \<and> i < length (bm_wbuffers bm) \<and>
             p = bm_pbuffers bm ! i \<and> w = bm_wbuffers bm ! i"
  using assms
  by (auto simp: bm_getBuffers_def Let_def split: option.splits if_splits)

lemma bm_doOnce_Returns:
  assumes "0 < bm_Payload bm" "bm_doOnce bm rnd stale = Returns (bm', res)"
  shows "\<exists>i conn rest. i < length (bm_pbuffers bm) \<and> i < length (bm_wbuffers bm) \<and>
           bm_chConns bm = conn # rest \<and>
           bm_getBuffers bm rnd = Some (bm_pbuffers bm ! i, bm_wbuffers bm ! i) \<and>
           bm' = bm\<lparr>bm_chConns := rest @ [conn]\<rparr> \<and>
           res = echo_verdict conn (bm_pbuffers bm ! i) (bm_wbuffers bm ! i)"
proof -
  obtain conn rest where ch: "bm_chConns bm = conn # rest"
    using assms(2) by (cases "bm_chConns bm") (auto simp: bm_doOnce_def)
  obtain p w where gb: "bm_getBuffers bm rnd = Some (p, w)"
    using assms(2) ch by (cases "bm_getBuffers bm rnd") (auto simp: bm_doOnce_def)
  from bm_getBuffers_Some[OF gb] obtain i where
    i: "i < length (bm_pbuffers bm)" "i < length (bm_wbuffers bm)"
       "p = bm_pbuffers bm ! i" "w = bm_wbuffers bm ! i"
    by blast
  from bm_doOnce_verdict[OF ch gb assms(1), of stale] assms(2)
  have "bm' = bm\<lparr>bm_chConns := rest @ [conn]\<rparr>" "res = echo_verdict conn p w"
    by simp_all
  with ch gb i show ?thesis by blast
qed

lemma bm_init_buffers:
  assumes "bm_init env bm0 = Inr bm"
  shows "0 < bm_Payload bm"
    and "bm_pbuffers bm = bm_init_pbuffers env (bm_Payload bm)"
    and "bm_wbuffers bm = bm_init_wbuffers env (bm_pbuffers bm)"
proof -
  from bm_init_Inr[OF assms] obtain pid ps where
    e: "bm = (bm_init_defaults env bm0)
           \<lparr>bm_pbuffers := bm_init_pbuffers env (bm_Payload (bm_init_defaults env bm0)),
            bm_wbuffers := bm_init_wbuffers env
                             (bm_init_pbuffers env (bm_Payload (bm_init_defaults env bm0))),
            bm_chConns := bm_ConnsMap (bm_init_defaults env bm0),
            bm_ServerPid := pid, bm_PsCounter := Some ps,
            bm_Calculator := Some (NewCalculator env (bm_Framework (bm_init_defaults env bm0) @ ''-TPS''))\<rparr>"
    by blast
  have P: "bm_Payload bm = bm_Payload (bm_init_defaults env bm0)"
    by (subst e) simp
  have pb: "bm_pbuffers bm = bm_init_pbuffers env (bm_Payload (bm_init_defaults env bm0))"
    by (subst e) simp
  have wb: "bm_wbuffers bm = bm_init_wbuffers env
              (bm_init_pbuffers env (bm_Payload (bm_init_defaults env bm0)))"
    by (subst e) simp
  show "0 < bm_Payload bm" by (simp add: P bm_init_defaults_Payload)
  show "bm_pbuffers bm = bm_init_pbuffers env (bm_Payload bm)" by (simp add: P pb)
  show "bm_wbuffers bm = bm_init_wbuffers env (bm_pbuffers bm)" by (simp add: pb wb)
qed

lemma br_init_wbuffer:
  assumes "br_init env br0 = Inr br"
  shows "br_wbuffer br = map (rand_Read env 0) [0..<nat (br_Payload br)]"
proof -
  from br_init_Inr[OF assms] obtain pid ps where
    "br = (br_init_limit (br_init_batch env (br_init_defaults br0)))
                         \<lparr>br_ServerPid := pid, br_PsCounter := Some ps\<rparr>"
    by blast
  then show ?thesis by (simp add: br_init_limit_fields br_init_batch_fields)
qed

lemma bm_doOnce_buffers:
  assumes "bm_doOnce bm rnd stale = Returns (bm', res)"
  shows "bm_pbuffers bm' = bm_pbuffers bm \<and> bm_wbuffers bm' = bm_wbuffers bm"
proof -
  obtain conn rest where ch: "bm_chConns bm = conn # rest"
    using assms by (cases "bm_chConns bm") (auto simp: bm_doOnce_def)
  obtain p w where gb: "bm_getBuffers bm rnd = Some (p, w)"
    using assms ch by (cases "bm_getBuffers bm rnd") (auto simp: bm_doOnce_def)
  have "bm' = bm\<lparr>bm_chConns := rest @ [conn]\<rparr>"
    using assms ch gb
    by (auto simp: bm_doOnce_def Let_def split: option.splits sum.splits prod.splits if_splits)
  then show ?thesis by simp
qed

lemma bm_calls_buffers:
  "bm_calls cs bm = Returns bm'' \<Longrightarrow>
     bm_pbuffers bm'' = bm_pbuffers bm \<and> bm_wbuffers bm'' = bm_wbuffers bm"
proof (induction cs arbitrary: bm)
  case Nil
  then show ?case by simp
next
  case (Cons c cs)
  obtain rnd stale where c: "c = (rnd, stale)" by (cases c)
  from Cons.prems c obtain bm' res where
    d: "bm_doOnce bm rnd stale = Returns (bm', res)" and r: "bm_calls cs bm' = Returns bm''"
    by (cases "bm_doOnce bm rnd stale") (auto split: prod.splits)
  from Cons.IH[OF r] bm_doOnce_buffers[OF d] show ?case by simp
qed

text \<open>
  Claim C8.  \<open>init\<close> of the closed-loop session builds 1024 payload buffers and, at
  the same indexes, their encoded frames.  \<open>getBuffers\<close> returns the payload and the
  frame of one common index below 1024.  A call leaves both tables as they are, and its
  result is the verdict on the connection it took for the stored pair of one index: the
  frame written is \<open>wbuffers[i]\<close> and the bytes received are compared with
  \<open>pbuffers[i]\<close>.  No sequence of calls changes the tables, and \<open>clean\<close> leaves the
  payload buffers as they are.  In the open-loop session \<open>init\<close> builds the one send buffer, no
  tick and no message changes it, and a message changes the state only when its payload
  equals that buffer.
\<close>

theorem payload_buffers_fixed:
  "(bm_init env bm0 = Inr bm \<longrightarrow>
      0 < bm_Payload bm \<and> length (bm_pbuffers bm) = 1024 \<and> length (bm_wbuffers bm) = 1024 \<and>
      (\<forall>i<1024. length (bm_pbuffers bm ! i) = nat (bm_Payload bm) \<and>
                 bm_wbuffers bm ! i = EncodeClientMessage env BinaryMessage (bm_pbuffers bm ! i))) \<and>
   (length (bm_pbuffers bm) = 1024 \<and> length (bm_wbuffers bm) = 1024 \<longrightarrow>
      (\<exists>i<1024. bm_getBuffers bm rnd = Some (bm_pbuffers bm ! i, bm_wbuffers bm ! i))) \<and>
   (0 < bm_Payload bm \<and> bm_doOnce bm rnd stale = Returns (bm', res) \<longrightarrow>
      bm_pbuffers bm' = bm_pbuffers bm \<and> bm_wbuffers bm' = bm_wbuffers bm \<and>
      (\<exists>i conn rest. i < length (bm_pbuffers bm) \<and> i < length (bm_wbuffers bm) \<and>
          bm_chConns bm = conn # rest \<and>
          bm_getBuffers bm rnd = Some (bm_pbuffers bm ! i, bm_wbuffers bm ! i) \<and>
          res = echo_verdict conn (bm_pbuffers bm ! i) (bm_wbuffers bm ! i))) \<and>
   (br_init env br0 = Inr br \<longrightarrow>
      br_wbuffer br = map (rand_Read env 0) [0..<nat (br_Payload br)]) \<and>
   br_wbuffer (fst (br_run es (br, h))) = br_wbuffer br \<and>
   (br_onMessage c mt b (br, h) \<noteq> (br, h) \<longrightarrow> b = br_wbuffer br) \<and>
   (bm_calls cs bm = Returns bm'' \<longrightarrow>
      bm_pbuffers bm'' = bm_pbuffers bm \<and> bm_wbuffers bm'' = bm_wbuffers bm) \<and>
   bm_pbuffers (bm_clean bm) = bm_pbuffers bm \<and>
   br_wbuffer (br_clean br) = br_wbuffer br"
proof -
  have a: "bm_init env bm0 = Inr bm \<longrightarrow>
      0 < bm_Payload bm \<and> length (bm_pbuffers bm) = 1024 \<and> length (bm_wbuffers bm) = 1024 \<and>
      (\<forall>i<1024. length (bm_pbuffers bm ! i) = nat (bm_Payload bm) \<and>
                 bm_wbuffers bm ! i = EncodeClientMessage env BinaryMessage (bm_pbuffers bm ! i))"
  proof
    assume i: "bm_init env bm0 = Inr bm"
    note b = bm_init_buffers[OF i]
    have l: "length (bm_pbuffers bm) = 1024"
      by (subst b(2)) (rule length_bm_init_pbuffers)
    have "length (bm_wbuffers bm) = 1024"
      by (subst b(3)) (simp add: length_bm_init_wbuffers l)
    moreover have "\<forall>i<1024. length (bm_pbuffers bm ! i) = nat (bm_Payload bm) \<and>
                 bm_wbuffers bm ! i = EncodeClientMessage env BinaryMessage (bm_pbuffers bm ! i)"
    proof (intro allI impI conjI)
      fix i :: nat assume "i < 1024"
      then show "bm_wbuffers bm ! i = EncodeClientMessage env BinaryMessage (bm_pbuffers bm ! i)"
        by (subst b(3)) (simp add: bm_init_wbuffers_nth l)
      from \<open>i < 1024\<close> show "length (bm_pbuffers bm ! i) = nat (bm_Payload bm)"
        by (subst b(2)) (simp add: bm_init_pbuffers_nth)
    qed
    ultimately show "0 < bm_Payload bm \<and> length (bm_pbuffers bm) = 1024 \<and>
      length (bm_wbuffers bm) = 1024 \<and>
      (\<forall>i<1024. length (bm_pbuffers bm ! i) = nat (bm_Payload bm) \<and>
                 bm_wbuffers bm ! i = EncodeClientMessage env BinaryMessage (bm_pbuffers bm ! i))"
      using b(1) l by blast
  qed
  have g: "length (bm_pbuffers bm) = 1024 \<and> length (bm_wbuffers bm) = 1024 \<longrightarrow>
      (\<exists>i<1024. bm_getBuffers bm rnd = Some (bm_pbuffers bm ! i, bm_wbuffers bm ! i))"
  proof
    assume "length (bm_pbuffers bm) = 1024 \<and> length (bm_wbuffers bm) = 1024"
    then have "bm_getBuffers bm rnd =
           Some (bm_pbuffers bm ! (rnd mod 1024), bm_wbuffers bm ! (rnd mod 1024))"
      by (intro bm_getBuffers_1024) simp_all
    moreover have "rnd mod 1024 < 1024" by simp
    ultimately show "\<exists>i<1024. bm_getBuffers bm rnd = Some (bm_pbuffers bm ! i, bm_wbuffers bm ! i)"
      by blast
  qed
  have d: "0 < bm_Payload bm \<and> bm_doOnce bm rnd stale = Returns (bm', res) \<longrightarrow>
      bm_pbuffers bm' = bm_pbuffers bm \<and> bm_wbuffers bm' = bm_wbuffers bm \<and>
      (\<exists>i conn rest. i < length (bm_pbuffers bm) \<and> i < length (bm_wbuffers bm) \<and>
          bm_chConns bm = conn # rest \<and>
          bm_getBuffers bm rnd = Some (bm_pbuffers bm ! i, bm_wbuffers bm ! i) \<and>
          res = echo_verdict conn (bm_pbuffers bm ! i) (bm_wbuffers bm ! i))"
  proof
    assume h: "0 < bm_Payload bm \<and> bm_doOnce bm rnd stale = Returns (bm', res)"
    from bm_doOnce_Returns[of bm rnd stale bm' res] h
    obtain i conn rest where
      "i < length (bm_pbuffers bm)" "i < length (bm_wbuffers bm)"
      "bm_chConns bm = conn # rest"
      "bm_getBuffers bm rnd = Some (bm_pbuffers bm ! i, bm_wbuffers bm ! i)"
      "bm' = bm\<lparr>bm_chConns := rest @ [conn]\<rparr>"
      "res = echo_verdict conn (bm_pbuffers bm ! i) (bm_wbuffers bm ! i)"
      by blast
    then show "bm_pbuffers bm' = bm_pbuffers bm \<and> bm_wbuffers bm' = bm_wbuffers bm \<and>
      (\<exists>i conn rest. i < length (bm_pbuffers bm) \<and> i < length (bm_wbuffers bm) \<and>
          bm_chConns bm = conn # rest \<and>
          bm_getBuffers bm rnd = Some (bm_pbuffers bm ! i, bm_wbuffers bm ! i) \<and>
          res = echo_verdict conn (bm_pbuffers bm ! i) (bm_wbuffers bm ! i))"
      by auto
  qed
  have r: "br_init env br0 = Inr br \<longrightarrow>
      br_wbuffer br = map (rand_Read env 0) [0..<nat (br_Payload br)]"
    using br_init_wbuffer by blast
  have u: "br_wbuffer (fst (br_run es (br, h))) = br_wbuffer br"
    using br_run_fst_config[of es "(br, h)"] by simp
  have m: "br_onMessage c mt b (br, h) \<noteq> (br, h) \<longrightarrow> b = br_wbuffer br"
    by (simp add: br_onMessage_def br_getWriteBuffer_def)
  have k: "bm_calls cs bm = Returns bm'' \<longrightarrow>
      bm_pbuffers bm'' = bm_pbuffers bm \<and> bm_wbuffers bm'' = bm_wbuffers bm"
    using bm_calls_buffers by blast
  have c1: "bm_pbuffers (bm_clean bm) = bm_pbuffers bm"
    by (simp add: bm_clean_def)
  have c2: "br_wbuffer (br_clean br) = br_wbuffer br"
    by (simp add: br_clean_def)
  show ?thesis using a g d r u m k c1 c2 by blast
qed


lemma echo1_init: "bm_init env0 (echo0\<lparr>bm_Payload := 4\<rparr>) = Inr echo1"
  using bm_init_env0[of "echo0\<lparr>bm_Payload := 4\<rparr>"]
  by (cases "bm_init env0 (echo0\<lparr>bm_Payload := 4\<rparr>)") (auto simp: echo1_def)

lemma echo1_doOnce:
  "bm_doOnce echo1 5 (\<lambda>j. 0) = Returns (echo1\<lparr>bm_chConns := [echo_peer, echo_peer] @ [echo_peer]\<rparr>, None)"
proof -
  have h1: "bm_chConns echo1 = echo_peer # [echo_peer, echo_peer]"
    by (simp add: echo1_fields)
  have h3: "0 < bm_Payload echo1"
    by (simp add: echo1_fields)
  have "echo_verdict echo_peer [5, 6, 7, 8] [130, 4, 5, 6, 7, 8] = None"
    by (simp add: echo_verdict_def echo_peer_def)
  with bm_doOnce_verdict[OF h1 echo1_getBuffers h3, of "\<lambda>j. 0"] show ?thesis by simp
qed

theorem payload_buffers_fixed_witness:
  "bm_init env0 (echo0\<lparr>bm_Payload := 4\<rparr>) = Inr echo1 \<and>
   length (bm_pbuffers echo1) = 1024 \<and> length (bm_wbuffers echo1) = 1024 \<and>
   bm_wbuffers echo1 ! 5 = EncodeClientMessage env0 BinaryMessage (bm_pbuffers echo1 ! 5) \<and>
   0 < bm_Payload echo1 \<and>
   bm_doOnce echo1 5 (\<lambda>j. 0) =
     Returns (echo1\<lparr>bm_chConns := [echo_peer, echo_peer] @ [echo_peer]\<rparr>, None) \<and>
   bm_pbuffers (echo1\<lparr>bm_chConns := [echo_peer, echo_peer] @ [echo_peer]\<rparr>) = bm_pbuffers echo1 \<and>
   br_init env0 rate0 = Inr rate1 \<and>
   br_wbuffer rate1 = map (rand_Read env0 0) [0..<nat (br_Payload rate1)] \<and>
   br_wbuffer (fst (br_run [Tick [0] (\<lambda>p. None), Message 0 BinaryMessage [0, 1, 2, 3]]
                      (rate1, \<lambda>p. new_Conn))) = br_wbuffer rate1 \<and>
   br_onMessage 0 BinaryMessage [0, 1, 2, 3] (rate1, \<lambda>p. new_Conn) \<noteq> (rate1, \<lambda>p. new_Conn) \<and>
   [0, 1, 2, 3] = br_wbuffer rate1 \<and>
   bm_calls [(5, \<lambda>j. 0)] echo1 =
     Returns (echo1\<lparr>bm_chConns := [echo_peer, echo_peer] @ [echo_peer]\<rparr>)"
proof -
  note t = payload_buffers_fixed[of env0 "echo0\<lparr>bm_Payload := 4\<rparr>" echo1 5 "\<lambda>j. 0"
      "echo1\<lparr>bm_chConns := [echo_peer, echo_peer] @ [echo_peer]\<rparr>" None rate0 rate1
      "[Tick [0] (\<lambda>p. None), Message 0 BinaryMessage [0, 1, 2, 3]]" "\<lambda>p. new_Conn"
      0 BinaryMessage "[0, 1, 2, 3]" "[(5, \<lambda>j. 0)]"
      "echo1\<lparr>bm_chConns := [echo_peer, echo_peer] @ [echo_peer]\<rparr>"]
  have cl: "bm_calls [(5, \<lambda>j. 0)] echo1 =
     Returns (echo1\<lparr>bm_chConns := [echo_peer, echo_peer] @ [echo_peer]\<rparr>)"
    by (simp add: echo1_doOnce)
  have p: "0 < bm_Payload echo1" by (simp add: echo1_fields)
  have n: "br_onMessage 0 BinaryMessage [0, 1, 2, 3] (rate1, \<lambda>p. new_Conn) \<noteq> (rate1, \<lambda>p. new_Conn)"
  proof
    assume "br_onMessage 0 BinaryMessage [0, 1, 2, 3] (rate1, \<lambda>p. new_Conn) = (rate1, \<lambda>p. new_Conn)"
    then have "br_recvTimes (fst (br_onMessage 0 BinaryMessage [0, 1, 2, 3] (rate1, \<lambda>p. new_Conn)))
                 = br_recvTimes rate1"
      by simp
    then show False
      by (simp add: br_onMessage_def br_getWriteBuffer_def rate1_fields)
  qed
  have five: "(5::nat) < 1024" by simp
  from t echo1_init echo1_doOnce br_init_env0 p n five cl show ?thesis
    by blast
qed

section \<open>Closed-loop session: the report\<close>

text \<open>
  Claim C9, as the code has it.  The report of an initialised closed-loop session
  holds the five latency percentiles 50, 75, 90, 95 and 99 of the calculator, whatever
  percentile list is configured, beside the calculator's TPS, its least, average and
  greatest latency and its counts of successes and failures.
\<close>

theorem bm_Report_percentiles:
  assumes "bm_Calculator bm = Some calc" and "bm_PsCounter bm = Some ps"
  shows "\<exists>rp. bm_Report bm = Some rp \<and> bm_Report (bm\<lparr>bm_Percents := pcts\<rparr>) = Some rp \<and>
           report_percentile rp n =
             (if n = 50 \<or> n = 75 \<or> n = 90 \<or> n = 95 \<or> n = 99 then Some (calc_TPN calc n)
              else None) \<and>
           rp_TPS rp = calc_TPS calc \<and> rp_Min rp = calc_Min calc \<and>
           rp_Avg rp = calc_Avg calc \<and> rp_Max rp = calc_Max calc \<and>
           rp_Success rp = calc_Success calc \<and> rp_Failed rp = calc_Failed calc"
  using assms by (auto simp: bm_Report_def report_percentile_def)

lemma echoP_fields:
  "bm_Calculator echoP = Some calc0" "bm_PsCounter echoP = Some ps0" "bm_Percents echoP = [10]"
  by (simp_all add: echoP_def bm_init_def env0_def Let_def bm_init_defaults_def echo0_def
        bm_New_def)

theorem bm_Report_percentiles_witness:
  "bm_Calculator echoP = Some calc0 \<and> bm_PsCounter echoP = Some ps0 \<and>
   map_option (\<lambda>rp. report_percentile rp 95) (bm_Report echoP) = Some (Some 95) \<and>
   bm_Report (echoP\<lparr>bm_Percents := [50, 75, 90, 95, 99]\<rparr>) = bm_Report echoP"
  using bm_Report_percentiles[OF echoP_fields(1) echoP_fields(2), of "[50, 75, 90, 95, 99]" 95]
        echoP_fields
  by (auto simp: calc0_def)

text \<open>
  A session configured with the percentile list \<open>[10]\<close> reports no percentile of rank
  10: the report has no field for it.
\<close>

theorem bm_Report_misses_requested_percentile:
  "bm_Percents echoP = [10] \<and>
   map_option (\<lambda>rp. report_percentile rp 10) (bm_Report echoP) = Some None"
  by (simp add: echoP_fields bm_Report_def report_percentile_def)

section \<open>The order of events in Run: properties\<close>

lemma time_of_simps [simp]:
  "time_of a (s\<lparr>rs_now := n\<rparr>) = time_of a s"
  "time_of a (s\<lparr>rs_main := m\<rparr>) = time_of a s"
  "time_of a (s\<lparr>rs_goroutine := g\<rparr>) = time_of a s"
  "time_of a (s\<lparr>rs_wake := w\<rparr>) = time_of a s"
  "time_of a (s\<lparr>rs_closed := c\<rparr>) = time_of a s"
  "time_of a (s\<lparr>rs_trace := rs_trace s @ [(b, t)]\<rparr>) =
     (case time_of a s of Some u \<Rightarrow> Some u | None \<Rightarrow> if a = b then Some t else None)"
  by (simp_all add: time_of_def map_add_def split: option.splits)

lemma run_inv_init:
  "prog \<in> set (suffixes bm_Run_main) \<Longrightarrow> AwaitCounterStart \<in> set prog \<Longrightarrow>
   MeasureEnd \<in> set prog \<Longrightarrow> run_inv d (run_init prog)"
  by (simp add: run_inv_def run_init_def time_of_def)

lemma run_inv_advance:
  assumes "run_inv d s"
  shows "run_inv d (run_step d (Advance k) s)"
  unfolding run_inv_def
proof (intro conjI)
  show "\<forall>a t. time_of a (run_step d (Advance k) s) = Some t \<longrightarrow> t \<le> rs_now (run_step d (Advance k) s)"
    using assms by (fastforce simp: run_inv_def)
  show "\<forall>gs. rs_goroutine (run_step d (Advance k) s) = Some gs \<and> Sleep \<notin> set gs \<longrightarrow>
           (\<exists>ts. time_of PsStart (run_step d (Advance k) s) = Some ts \<and>
                 ts + d \<le> rs_now (run_step d (Advance k) s))"
    using assms by (fastforce simp: run_inv_def)
  show "rs_closed (run_step d (Advance k) s) \<longrightarrow>
          (\<exists>ts. time_of PsStart (run_step d (Advance k) s) = Some ts \<and>
                ts + d \<le> rs_now (run_step d (Advance k) s))"
    using assms by (fastforce simp: run_inv_def)
qed (use assms in \<open>simp_all add: run_inv_def\<close>)


lemma run_inv_main:
  assumes inv: "run_inv d s"
  shows "run_inv d (run_step d RunMain s)"
proof (cases "rs_main s")
  case Nil
  then show ?thesis using inv by simp
next
  case (Cons a rest)
  show ?thesis
  proof (cases "a = AwaitCounterStart \<and> \<not> rs_closed s")
    case True
    then show ?thesis using inv Cons by simp
  next
    case False
    define s' where "s' = run_step d RunMain s"
    have suf: "a # rest \<in> set (suffixes bm_Run_main)"
      using inv Cons by (simp add: run_inv_def)
    have now: "rs_now s' = rs_now s" and wake: "rs_wake s' = rs_wake s"
      and closed: "rs_closed s' = rs_closed s" and main: "rs_main s' = rest"
      and gor: "rs_goroutine s' = (if a = Go then Some Run_goroutine else rs_goroutine s)"
      and tm: "\<And>b. time_of b s' =
            (case time_of b s of Some u \<Rightarrow> Some u
             | None \<Rightarrow> if b = a then Some (rs_now s) else None)"
      using False Cons by (auto simp: s'_def time_of_def map_add_def split: option.splits)
    have old: "\<And>b t. time_of b s = Some t \<Longrightarrow> time_of b s' = Some t"
      by (simp add: tm)
    have j1: "\<And>b t. time_of b s = Some t \<Longrightarrow> t \<le> rs_now s"
      using inv by (simp add: run_inv_def)
    have "run_inv d s'"
      unfolding run_inv_def
    proof (intro conjI)
      show "\<forall>b t. time_of b s' = Some t \<longrightarrow> t \<le> rs_now s'"
        using j1 by (auto simp: tm now split: option.splits if_splits)
      show "rs_main s' \<in> set (suffixes bm_Run_main)"
        using suf by (auto simp: main bm_Run_main_def)
      show "\<forall>gs. rs_goroutine s' = Some gs \<longrightarrow> gs \<in> set (suffixes Run_goroutine)"
        using inv by (auto simp: gor run_inv_def)
      show "\<forall>gs. rs_goroutine s' = Some gs \<and> PsStart \<notin> set gs \<longrightarrow> time_of PsStart s' \<noteq> None"
        using inv by (auto simp: gor tm run_inv_def Run_goroutine_def split: option.splits if_splits)
      show "\<forall>w. rs_wake s' = Some w \<longrightarrow> (\<exists>ts. time_of PsStart s' = Some ts \<and> ts + d \<le> w)"
        using inv old by (fastforce simp: wake run_inv_def)
      show "\<forall>gs. rs_goroutine s' = Some gs \<and> Sleep \<notin> set gs \<longrightarrow>
           (\<exists>ts. time_of PsStart s' = Some ts \<and> ts + d \<le> rs_now s')"
      proof (intro allI impI)
        fix gs assume g: "rs_goroutine s' = Some gs \<and> Sleep \<notin> set gs"
        then have "rs_goroutine s = Some gs"
          by (auto simp: gor Run_goroutine_def split: if_splits)
        with g inv obtain ts where "time_of PsStart s = Some ts" "ts + d \<le> rs_now s"
          by (auto simp: run_inv_def)
        then show "\<exists>ts. time_of PsStart s' = Some ts \<and> ts + d \<le> rs_now s'"
          using old by (auto simp: now)
      qed
      show "rs_closed s' \<longrightarrow> (\<exists>ts. time_of PsStart s' = Some ts \<and> ts + d \<le> rs_now s')"
        using inv old by (fastforce simp: closed now run_inv_def)
      show "AwaitCounterStart \<notin> set (rs_main s') \<longrightarrow> rs_closed s'"
        using inv False Cons by (auto simp: main closed run_inv_def)
      show "MeasureEnd \<notin> set (rs_main s') \<longrightarrow> time_of MeasureEnd s' \<noteq> None"
        using inv Cons by (auto simp: main tm run_inv_def split: option.splits)
      show "\<forall>t. time_of PsStop s' = Some t \<longrightarrow>
          (\<exists>ts te. time_of PsStart s' = Some ts \<and> ts + d \<le> t \<and>
                   time_of MeasureEnd s' = Some te \<and> te \<le> t)"
      proof (intro allI impI)
        fix t assume t: "time_of PsStop s' = Some t"
        show "\<exists>ts te. time_of PsStart s' = Some ts \<and> ts + d \<le> t \<and>
                   time_of MeasureEnd s' = Some te \<and> te \<le> t"
        proof (cases "time_of PsStop s")
          case (Some u)
          then have "u = t" using t by (simp add: tm)
          with Some inv obtain ts te where
            "time_of PsStart s = Some ts" "ts + d \<le> t" "time_of MeasureEnd s = Some te" "te \<le> t"
            by (auto simp: run_inv_def)
          then show ?thesis using old by blast
        next
          case None
          then have a: "a = PsStop" and tn: "t = rs_now s"
            using t by (auto simp: tm split: if_splits)
          from suf a have r: "rest = []"
            by (auto simp: bm_Run_main_def)
          then have "AwaitCounterStart \<notin> set (rs_main s)" "MeasureEnd \<notin> set (rs_main s)"
            using Cons a by simp_all
          with inv obtain ts te where
            "time_of PsStart s = Some ts" "ts + d \<le> rs_now s" "time_of MeasureEnd s = Some te"
            by (auto simp: run_inv_def)
          moreover from this j1 have "te \<le> rs_now s" by blast
          ultimately show ?thesis using old tn by blast
        qed
      qed
    qed
    then show ?thesis by (simp add: s'_def)
  qed
qed


lemma run_inv_goroutine:
  assumes inv: "run_inv d s"
  shows "run_inv d (run_step d RunGoroutine s)"
proof (cases "rs_goroutine s")
  case None
  then show ?thesis using inv by simp
next
  case (Some gs)
  have j1: "\<And>b t. time_of b s = Some t \<Longrightarrow> t \<le> rs_now s"
    using inv by (simp add: run_inv_def)
  show ?thesis
  proof (cases gs)
    case Nil
    then show ?thesis using inv Some by simp
  next
    case (Cons a rest)
    have suf: "a # rest \<in> set (suffixes Run_goroutine)"
      using inv Some Cons by (simp add: run_inv_def)
    show ?thesis
    proof (cases "a = Sleep \<and> (rs_wake s = None \<or> (\<exists>w. rs_wake s = Some w \<and> \<not> w \<le> rs_now s))")
      case True
      show ?thesis
      proof (cases "rs_wake s")
        case None
        have st: "run_step d RunGoroutine s = s\<lparr>rs_wake := Some (rs_now s + d)\<rparr>"
          using True None Some Cons by simp
        from suf True have "PsStart \<notin> set gs"
          using Cons by (auto simp: Run_goroutine_def)
        with inv Some obtain ts where ts: "time_of PsStart s = Some ts"
          by (auto simp: run_inv_def)
        with j1 have "ts + d \<le> rs_now s + d" by simp
        with ts inv show ?thesis
          unfolding st run_inv_def by simp
      next
        case (Some w)
        then show ?thesis using True inv \<open>rs_goroutine s = Some gs\<close> Cons by simp
      qed
    next
      case False
      define s' where "s' = run_step d RunGoroutine s"
      have now: "rs_now s' = rs_now s" and wake: "rs_wake s' = rs_wake s"
        and closed: "rs_closed s' = (rs_closed s \<or> a = CloseCounterStart)"
        and main: "rs_main s' = rs_main s"
        and gor: "rs_goroutine s' = Some rest"
        and tm: "\<And>b. time_of b s' =
              (case time_of b s of Some u \<Rightarrow> Some u
               | None \<Rightarrow> if b = a then Some (rs_now s) else None)"
        using False Some Cons
        by (auto simp: s'_def time_of_def map_add_def split: option.splits)
      have old: "\<And>b t. time_of b s = Some t \<Longrightarrow> time_of b s' = Some t"
        by (simp add: tm)
      have "run_inv d s'"
        unfolding run_inv_def
      proof (intro conjI)
        show "\<forall>b t. time_of b s' = Some t \<longrightarrow> t \<le> rs_now s'"
          using j1 by (auto simp: tm now split: option.splits if_splits)
        show "rs_main s' \<in> set (suffixes bm_Run_main)"
          using inv by (simp add: main run_inv_def)
        show "\<forall>gs. rs_goroutine s' = Some gs \<longrightarrow> gs \<in> set (suffixes Run_goroutine)"
          using suf by (auto simp: gor Run_goroutine_def)
        show "\<forall>gs. rs_goroutine s' = Some gs \<and> PsStart \<notin> set gs \<longrightarrow> time_of PsStart s' \<noteq> None"
          using inv Some Cons by (auto simp: gor tm run_inv_def split: option.splits)
        show "\<forall>w. rs_wake s' = Some w \<longrightarrow> (\<exists>ts. time_of PsStart s' = Some ts \<and> ts + d \<le> w)"
          using inv old by (fastforce simp: wake run_inv_def)
        show j6: "\<forall>gs. rs_goroutine s' = Some gs \<and> Sleep \<notin> set gs \<longrightarrow>
             (\<exists>ts. time_of PsStart s' = Some ts \<and> ts + d \<le> rs_now s')"
        proof (intro allI impI)
          fix gs' assume g: "rs_goroutine s' = Some gs' \<and> Sleep \<notin> set gs'"
          show "\<exists>ts. time_of PsStart s' = Some ts \<and> ts + d \<le> rs_now s'"
          proof (cases "a = Sleep")
            case True
            with False obtain w where w: "rs_wake s = Some w" "w \<le> rs_now s"
              by (cases "rs_wake s") auto
            with inv obtain ts where "time_of PsStart s = Some ts" "ts + d \<le> w"
              by (auto simp: run_inv_def)
            with w old show ?thesis by (auto simp: now)
          next
            case False
            with g have "Sleep \<notin> set gs" by (simp add: gor Cons)
            with inv Some obtain ts where "time_of PsStart s = Some ts" "ts + d \<le> rs_now s"
              by (auto simp: run_inv_def)
            with old show ?thesis by (auto simp: now)
          qed
        qed
        show "rs_closed s' \<longrightarrow> (\<exists>ts. time_of PsStart s' = Some ts \<and> ts + d \<le> rs_now s')"
        proof
          assume c: "rs_closed s'"
          show "\<exists>ts. time_of PsStart s' = Some ts \<and> ts + d \<le> rs_now s'"
          proof (cases "rs_closed s")
            case True
            with inv obtain ts where "time_of PsStart s = Some ts" "ts + d \<le> rs_now s"
              by (auto simp: run_inv_def)
            with old show ?thesis by (auto simp: now)
          next
            case False
            with c have "a = CloseCounterStart" by (simp add: closed)
            with suf have "Sleep \<notin> set rest"
              by (auto simp: Run_goroutine_def)
            with j6 show ?thesis by (simp add: gor)
          qed
        qed
        show "AwaitCounterStart \<notin> set (rs_main s') \<longrightarrow> rs_closed s'"
          using inv by (auto simp: main closed run_inv_def)
        show "MeasureEnd \<notin> set (rs_main s') \<longrightarrow> time_of MeasureEnd s' \<noteq> None"
          using inv by (auto simp: main tm run_inv_def split: option.splits)
        show "\<forall>t. time_of PsStop s' = Some t \<longrightarrow>
            (\<exists>ts te. time_of PsStart s' = Some ts \<and> ts + d \<le> t \<and>
                     time_of MeasureEnd s' = Some te \<and> te \<le> t)"
        proof (intro allI impI)
          fix t assume t: "time_of PsStop s' = Some t"
          have "a \<noteq> PsStop" using suf by (auto simp: Run_goroutine_def)
          with t have "time_of PsStop s = Some t"
            by (auto simp: tm split: option.splits)
          with inv obtain ts te where
            "time_of PsStart s = Some ts" "ts + d \<le> t" "time_of MeasureEnd s = Some te" "te \<le> t"
            by (auto simp: run_inv_def)
          then show "\<exists>ts te. time_of PsStart s' = Some ts \<and> ts + d \<le> t \<and>
                     time_of MeasureEnd s' = Some te \<and> te \<le> t"
            using old by blast
        qed
      qed
      then show ?thesis by (simp add: s'_def)
    qed
  qed
qed

lemma run_inv_step: "run_inv d s \<Longrightarrow> run_inv d (run_step d c s)"
  by (cases c) (simp_all only: run_inv_main run_inv_goroutine run_inv_advance)

lemma run_inv_exec: "run_inv d s \<Longrightarrow> run_inv d (run_exec d cs s)"
  by (induction cs arbitrary: s) (simp_all add: run_inv_step)

text \<open>
  Claim C5, as the code has it.  In either session, whenever \<open>Run\<close> has stopped the
  sampler, the sampler was started at least one sampling interval before, and the
  measurement had ended by then: the wait for one interval stands between the start and
  the stop of the sampler.
\<close>

theorem Run_stops_sampler_after_interval:
  assumes "prog = bm_Run_main \<or> prog = br_Run_main"
      and "time_of PsStop (run_exec interval cs (run_init prog)) = Some t"
  shows "\<exists>ts te. time_of PsStart (run_exec interval cs (run_init prog)) = Some ts \<and>
                 ts + interval \<le> t \<and>
                 time_of MeasureEnd (run_exec interval cs (run_init prog)) = Some te \<and>
                 te \<le> t"
proof -
  have "run_inv interval (run_init prog)"
    using assms(1) by (auto intro!: run_inv_init simp: bm_Run_main_def br_Run_main_def)
  then have "run_inv interval (run_exec interval cs (run_init prog))"
    by (rule run_inv_exec)
  with assms(2) show ?thesis by (simp add: run_inv_def)
qed

theorem Run_stops_sampler_after_interval_witness:
  "time_of PsStop (run_exec 1000000000 full_schedule (run_init bm_Run_main)) = Some 1000000300 \<and>
   time_of PsStart (run_exec 1000000000 full_schedule (run_init bm_Run_main)) = Some 0 \<and>
   time_of MeasureEnd (run_exec 1000000000 full_schedule (run_init bm_Run_main)) = Some 300"
proof -
  have h: "time_of PsStop (run_exec 1000000000 full_schedule (run_init bm_Run_main)) = Some 1000000300"
    by (simp add: full_schedule_def run_init_def bm_Run_main_def Run_goroutine_def time_of_def)
  have s: "time_of PsStart (run_exec 1000000000 full_schedule (run_init bm_Run_main)) = Some 0"
    by (simp add: full_schedule_def run_init_def bm_Run_main_def Run_goroutine_def time_of_def)
  have e: "time_of MeasureEnd (run_exec 1000000000 full_schedule (run_init bm_Run_main)) = Some 300"
    by (simp add: full_schedule_def run_init_def bm_Run_main_def Run_goroutine_def time_of_def)
  from Run_stops_sampler_after_interval[OF disjI1[OF refl] h] h s e show ?thesis by simp
qed

text \<open>
  The measurement does not wait for the sampler.  In the closed-loop session the main
  thread can begin \<open>Calculator.Benchmark\<close> before the goroutine has started the sampler
  at all; in the open-loop session the workers can begin at the very time the sampler
  starts, with no interval in between.
\<close>

theorem Run_measures_without_waiting:
  "time_of MeasureBegin (run_exec 1000000000 [RunMain, RunMain, RunMain] (run_init bm_Run_main))
     = Some 0 \<and>
   time_of PsStart (run_exec 1000000000 [RunMain, RunMain, RunMain] (run_init bm_Run_main))
     = None \<and>
   time_of PsStart (run_exec 1000000000 [RunMain, RunGoroutine, RunMain] (run_init br_Run_main))
     = Some 0 \<and>
   time_of MeasureBegin (run_exec 1000000000 [RunMain, RunGoroutine, RunMain] (run_init br_Run_main))
     = Some 0"
  by (simp add: run_init_def bm_Run_main_def br_Run_main_def Run_goroutine_def time_of_def)

section \<open>The rate limiter's wait: properties\<close>

lemma bm_init_defaults_limitFn:
  "bm_limitFn (bm_init_defaults env bm) =
     (if bm_Limit bm > 0 then LimiterWaitN Background (bm_Limit bm) 1 else bm_limitFn bm)"
  by (simp add: bm_init_defaults_def Let_def)

lemma bm_init_limitFn:
  assumes "bm_init env bm0 = Inr bm"
  shows "bm_limitFn bm =
     (if bm_Limit bm0 > 0 then LimiterWaitN Background (bm_Limit bm0) 1 else bm_limitFn bm0)"
proof -
  from bm_init_Inr[OF assms] obtain pid ps where
    "bm_limitFn bm = bm_limitFn (bm_init_defaults env bm0)"
    by auto
  then show ?thesis by (simp only: bm_init_defaults_limitFn)
qed

lemma br_init_limitFn:
  assumes "br_init env br0 = Inr br"
  shows "br_limitFn br =
     (if br_SendLimit br0 > 0
      then LimiterWaitN Background (br_SendLimit br0)
             (int (length (br_batchBuffer br)) div br_Payload br)
      else br_limitFn br0)"
proof -
  from br_init_Inr[OF assms] obtain pid ps where
    "br = (br_init_limit (br_init_batch env (br_init_defaults br0)))
                         \<lparr>br_ServerPid := pid, br_PsCounter := Some ps\<rparr>"
    by blast
  then show ?thesis
    by (simp add: br_init_limit_fields br_init_batch_fields br_init_defaults_fields)
qed

text \<open>
  Claim C6, as the code has it.  The \<open>limitFn\<close> that \<open>init\<close> builds waits with the
  background context: what a waiting worker does next is the same whether the run's done
  channel is closed or not.  With a limit configured, a worker of the closed-loop
  session that has delay left keeps waiting, and a worker of the open-loop session keeps
  waiting unless its request exceeds the burst, in which case the wait fails at once.
\<close>

theorem limitFn_wait_ignores_done:
  "(bm_limitFn bm0 = Nop \<and> bm_init env bm0 = Inr bm \<longrightarrow>
      limitFn_wait (bm_limitFn bm) done d = limitFn_wait (bm_limitFn bm) False d \<and>
      (0 < bm_Limit bm0 \<longrightarrow> limitFn_wait (bm_limitFn bm) done (Suc d) = Waiting d)) \<and>
   (br_limitFn br0 = Nop \<and> br_init env br0 = Inr br \<longrightarrow>
      limitFn_wait (br_limitFn br) done d = limitFn_wait (br_limitFn br) False d \<and>
      (0 < br_SendLimit br0 \<and>
       int (length (br_batchBuffer br)) div br_Payload br \<le> br_SendLimit br0 \<longrightarrow>
         limitFn_wait (br_limitFn br) done (Suc d) = Waiting d))"
proof -
  have a: "bm_limitFn bm0 = Nop \<and> bm_init env bm0 = Inr bm \<longrightarrow>
      limitFn_wait (bm_limitFn bm) done d = limitFn_wait (bm_limitFn bm) False d \<and>
      (0 < bm_Limit bm0 \<longrightarrow> limitFn_wait (bm_limitFn bm) done (Suc d) = Waiting d)"
    using bm_init_limitFn[of env bm0 bm] by auto
  have b: "br_limitFn br0 = Nop \<and> br_init env br0 = Inr br \<longrightarrow>
      limitFn_wait (br_limitFn br) done d = limitFn_wait (br_limitFn br) False d \<and>
      (0 < br_SendLimit br0 \<and>
       int (length (br_batchBuffer br)) div br_Payload br \<le> br_SendLimit br0 \<longrightarrow>
         limitFn_wait (br_limitFn br) done (Suc d) = Waiting d)"
    using br_init_limitFn[of env br0 br] by auto
  show ?thesis using a b by blast
qed

lemma echoL_init: "bm_init env0 (echo0\<lparr>bm_Limit := 5\<rparr>) = Inr echoL"
  using bm_init_env0[of "echo0\<lparr>bm_Limit := 5\<rparr>"]
  by (cases "bm_init env0 (echo0\<lparr>bm_Limit := 5\<rparr>)") (auto simp: echoL_def)

lemma rateL_init: "br_init env0 (rate0\<lparr>br_SendLimit := 5\<rparr>) = Inr rateL"
  by (simp add: rateL_def br_init_def br_init_batch_def br_init_defaults_def env0_def Let_def
        rate0_def br_New_def)

lemma rateL_fields:
  "br_batchBuffer rateL = [130, 4, 0, 1, 2, 3]" "br_Payload rateL = 4"
  "br_limitFn rateL = LimiterWaitN Background 5 1"
proof -
  from br_init_Inr[OF rateL_init] obtain pid ps where
    e: "rateL = (br_init_limit (br_init_batch env0 (br_init_defaults (rate0\<lparr>br_SendLimit := 5\<rparr>))))
                         \<lparr>br_ServerPid := pid, br_PsCounter := Some ps\<rparr>"
    by blast
  have p: "br_Payload (br_init_defaults (rate0\<lparr>br_SendLimit := 5\<rparr>)) = 4"
    "br_SendRate (br_init_defaults (rate0\<lparr>br_SendLimit := 5\<rparr>)) = 10"
    by (simp_all add: br_init_defaults_fields rate0_def)
  have w: "map (rand_Read env0 0) [0..<4] = [0, 1, 2, 3]"
    by (simp add: env0_def upt_rec)
  show b: "br_batchBuffer rateL = [130, 4, 0, 1, 2, 3]" and q: "br_Payload rateL = 4"
    by (simp_all add: e br_init_limit_fields br_init_batch_fields p w)
       (simp_all add: env0_def BinaryMessage_def)
  from br_init_limitFn[OF rateL_init] b q
  show "br_limitFn rateL = LimiterWaitN Background 5 1"
    by (simp add: rate0_def br_New_def)
qed

theorem limitFn_wait_ignores_done_witness:
  "bm_limitFn (echo0\<lparr>bm_Limit := 5\<rparr>) = Nop \<and> bm_init env0 (echo0\<lparr>bm_Limit := 5\<rparr>) = Inr echoL \<and>
   0 < bm_Limit (echo0\<lparr>bm_Limit := 5\<rparr>) \<and>
   limitFn_wait (bm_limitFn echoL) True (Suc 2) = Waiting 2 \<and>
   br_limitFn (rate0\<lparr>br_SendLimit := 5\<rparr>) = Nop \<and>
   br_init env0 (rate0\<lparr>br_SendLimit := 5\<rparr>) = Inr rateL \<and>
   0 < br_SendLimit (rate0\<lparr>br_SendLimit := 5\<rparr>) \<and>
   int (length (br_batchBuffer rateL)) div br_Payload rateL \<le> br_SendLimit (rate0\<lparr>br_SendLimit := 5\<rparr>) \<and>
   limitFn_wait (br_limitFn rateL) True (Suc 2) = Waiting 2"
proof -
  have h1: "bm_limitFn (echo0\<lparr>bm_Limit := 5\<rparr>) = Nop" "0 < bm_Limit (echo0\<lparr>bm_Limit := 5\<rparr>)"
    by (simp_all add: echo0_def bm_New_def)
  have h2: "br_limitFn (rate0\<lparr>br_SendLimit := 5\<rparr>) = Nop" "0 < br_SendLimit (rate0\<lparr>br_SendLimit := 5\<rparr>)"
    "int (length (br_batchBuffer rateL)) div br_Payload rateL \<le> br_SendLimit (rate0\<lparr>br_SendLimit := 5\<rparr>)"
    by (simp_all add: rate0_def br_New_def rateL_fields)
  from limitFn_wait_ignores_done[of "echo0\<lparr>bm_Limit := 5\<rparr>" env0 echoL True 2
         "rate0\<lparr>br_SendLimit := 5\<rparr>" rateL]
       h1 h2 echoL_init rateL_init
  show ?thesis by blast
qed

text \<open>
  With a limit of 5 configured, a worker that waits for a token with three units of
  delay left is still waiting after the run's done channel is closed, in both sessions.
\<close>

theorem limitFn_wait_not_cancelled:
  "bm_limitFn echoL = LimiterWaitN Background 5 1 \<and>
   limitFn_wait (bm_limitFn echoL) True 3 = Waiting 2 \<and>
   br_limitFn rateL = LimiterWaitN Background 5 1 \<and>
   limitFn_wait (br_limitFn rateL) True 3 = Waiting 2"
proof -
  have "bm_limitFn echoL = LimiterWaitN Background 5 1"
    using bm_init_limitFn[OF echoL_init] by (simp add: echo0_def bm_New_def)
  then show ?thesis by (simp add: rateL_fields)
qed

end
